theory Spec2Isabelle
  imports
    Main
    "HOL-Library.AList"
    "HOL-Library.Char_ord"
    "HOL-Library.List_Lexorder"
    "HOL-Library.Sublist"
begin

section \<open>Values and the resource model (package config)\<close>

text \<open>
  Go's \<open>interface{}\<close> values as they come out of the YAML decoder: nil, booleans,
  integers, strings, sequences and string-keyed mappings. A Go map is an association
  list here; the lookup \<open>m[k]\<close> is \<open>map_of m k\<close>. Floating-point scalars are left out.
\<close>

datatype val =
    VNil
  | VBool bool
  | VInt int
  | VStr string
  | VList "val list"
  | VMap "(string \<times> val) list"

type_synonym props = "(string \<times> val) list"

record DriftPolicy =
  AutoHeal :: bool
  NotifyOnly :: bool

record ResourceInstance =
  ID :: string
  Kind :: string
  Name :: string
  Properties :: props
  DriftPolicy :: "DriftPolicy option"
  DependsOn :: "string list"

section \<open>The provider contract (package providers)\<close>

text \<open>
  A provider is the record of its answers: every method of the Go interface is a function
  of its arguments, an error being \<open>Some msg\<close>. \<open>GetCurrentState\<close> returns
  \<open>Inr None\<close> for the nil map of an absent resource. The calls that change the cloud
  (Create, Update, Delete) are recorded, with their arguments, in a log by the controllers
  that issue them.
\<close>

record Provider =
  Initialize :: "props \<Rightarrow> string option"
  Create :: "ResourceInstance \<Rightarrow> string option"
  Update :: "ResourceInstance \<Rightarrow> props \<Rightarrow> string option"
  Delete :: "ResourceInstance \<Rightarrow> string option"
  GetCurrentState :: "ResourceInstance \<Rightarrow> string + props option"
  ValidateResource :: "ResourceInstance \<Rightarrow> string option"

datatype call =
    CallCreate ResourceInstance
  | CallUpdate ResourceInstance props
  | CallDelete ResourceInstance

datatype DriftType = DriftTypeAdded | DriftTypeRemoved | DriftTypeModified

record DriftDifference =
  Property :: string
  CurrentValue :: val
  DesiredValue :: val
  DriftType :: DriftType

record DriftResult =
  HasDrift :: bool
  Changes :: "string list"
  Differences :: "(string \<times> DriftDifference) list"
  CurrentState :: "props option"
  DesiredState :: props

section \<open>Formatting values (fmt.Sprintf with the verb v)\<close>

fun digitChar :: "nat \<Rightarrow> char" where
  "digitChar n = char_of (48 + n)"

function natToString :: "nat \<Rightarrow> string" where
  "natToString n = (if n < 10 then [digitChar n] else natToString (n div 10) @ [digitChar (n mod 10)])"
  by pat_completeness auto
termination
  by (relation "measure id") auto

definition intToString :: "int \<Rightarrow> string" where
  "intToString i = (if i < 0 then CHR ''-'' # natToString (nat (- i)) else natToString (nat i))"

fun joinWith :: "string \<Rightarrow> string list \<Rightarrow> string" where
  "joinWith sep [] = []"
| "joinWith sep [x] = x"
| "joinWith sep (x # y # ys) = x @ sep @ joinWith sep (y # ys)"

text \<open>
  \<open>fmtV\<close> is the default format of a value: a sequence prints as \<open>[a b]\<close>, a mapping as
  \<open>map[k:v]\<close> with its keys in sorted order, nil as \<open><nil>\<close>.
\<close>

fun fmtV :: "val \<Rightarrow> string" where
  "fmtV VNil = ''<nil>''"
| "fmtV (VBool b) = (if b then ''true'' else ''false'')"
| "fmtV (VInt i) = intToString i"
| "fmtV (VStr s) = s"
| "fmtV (VList xs) = ''['' @ joinWith '' '' (map fmtV xs) @ '']''"
| "fmtV (VMap m) =
     ''map['' @ joinWith '' '' (map (\<lambda>kv. fst kv @ '':'' @ snd kv)
        (sort_key fst (map (\<lambda>kv. (fst kv, fmtV (snd kv))) m))) @ '']''"

section \<open>Drift detection (package drift)\<close>

text \<open>
  \<open>reflect.DeepEqual\<close> on decoded values: scalars by value, sequences element by
  element, mappings when they have the same number of entries and every key of the first
  is a key of the second with a deeply equal value.
\<close>

function (sequential) deepEqual :: "val \<Rightarrow> val \<Rightarrow> bool" where
  "deepEqual VNil VNil = True"
| "deepEqual (VBool a) (VBool b) = (a = b)"
| "deepEqual (VInt a) (VInt b) = (a = b)"
| "deepEqual (VStr a) (VStr b) = (a = b)"
| "deepEqual (VList xs) (VList ys) =
     (length xs = length ys \<and> list_all (\<lambda>i. deepEqual (xs ! i) (ys ! i)) [0..<length xs])"
| "deepEqual (VMap m) (VMap n) =
     (length m = length n \<and>
      list_all (\<lambda>kv. case map_of n (fst kv) of None \<Rightarrow> False | Some w \<Rightarrow> deepEqual (snd kv) w) m)"
| "deepEqual _ _ = False"
  by pat_completeness auto
termination
proof (relation "measure (\<lambda>p. size (fst p))")
  show "wf (measure (\<lambda>p. size (fst p)))" by simp
next
  fix xs ys :: "val list" and i
  assume "i \<in> set [0..<length xs]"
  then have "xs ! i \<in> set xs" by simp
  then have "size (xs ! i) \<le> size_list size xs" by (rule size_list_estimation') simp
  then show "((xs ! i, ys ! i), (VList xs, VList ys)) \<in> measure (\<lambda>p. size (fst p))" by simp
next
  fix m n :: "(string \<times> val) list" and kv :: "string \<times> val" and w
  assume "kv \<in> set m"
  then have "size (snd kv) \<le> size_list (size_prod (\<lambda>x. 0) size) m"
    by (rule size_list_estimation') (cases kv, simp)
  then show "((snd kv, w), (VMap m, VMap n)) \<in> measure (\<lambda>p. size (fst p))" by simp
qed

definition valuesEqual :: "val \<Rightarrow> val \<Rightarrow> bool" where
  "valuesEqual current desired =
     (if current = VNil \<and> desired = VNil then True
      else if current = VNil \<or> desired = VNil then False
      else deepEqual current desired)"

definition metadataFields :: "string list" where
  "metadataFields = [''arn'', ''id'', ''creation_date'', ''last_modified'', ''status'',
     ''state'', ''availability_zone'', ''instance_id'', ''vpc_id'', ''subnet_id'']"

fun isMetadataFieldIn :: "string list \<Rightarrow> string \<Rightarrow> bool" where
  "isMetadataFieldIn [] fieldName = False"
| "isMetadataFieldIn (field # rest) fieldName =
     (if fieldName = field then True else isMetadataFieldIn rest fieldName)"

definition isMetadataField :: "string \<Rightarrow> bool" where
  "isMetadataField fieldName = isMetadataFieldIn metadataFields fieldName"

text \<open>
  \<open>compareStates\<close> runs its two loops over the entries of the maps; an assignment
  \<open>differences[key] = d\<close> is \<open>AList.update key d\<close>.
\<close>

fun compareDesired ::
  "props \<Rightarrow> props \<Rightarrow> (string \<times> DriftDifference) list \<Rightarrow> (string \<times> DriftDifference) list" where
  "compareDesired current [] differences = differences"
| "compareDesired current ((key, desiredValue) # rest) differences =
     (case map_of current key of
        None \<Rightarrow>
          compareDesired current rest
            (AList.update key \<lparr>Property = key, CurrentValue = VNil, DesiredValue = desiredValue,
               DriftType = DriftTypeAdded\<rparr> differences)
      | Some currentValue \<Rightarrow>
          if \<not> valuesEqual currentValue desiredValue then
            compareDesired current rest
              (AList.update key \<lparr>Property = key, CurrentValue = currentValue,
                 DesiredValue = desiredValue, DriftType = DriftTypeModified\<rparr> differences)
          else compareDesired current rest differences)"

fun compareCurrent ::
  "props \<Rightarrow> props \<Rightarrow> (string \<times> DriftDifference) list \<Rightarrow> (string \<times> DriftDifference) list" where
  "compareCurrent desired [] differences = differences"
| "compareCurrent desired ((key, currentValue) # rest) differences =
     (case map_of desired key of
        None \<Rightarrow>
          if isMetadataField key then compareCurrent desired rest differences
          else compareCurrent desired rest
            (AList.update key \<lparr>Property = key, CurrentValue = currentValue, DesiredValue = VNil,
               DriftType = DriftTypeRemoved\<rparr> differences)
      | Some _ \<Rightarrow> compareCurrent desired rest differences)"

definition compareStates :: "props \<Rightarrow> props \<Rightarrow> (string \<times> DriftDifference) list" where
  "compareStates current desired = compareCurrent desired current (compareDesired current desired [])"

fun differenceToChange :: "DriftDifference \<Rightarrow> string" where
  "differenceToChange d =
     (case DriftType d of
        DriftTypeAdded \<Rightarrow>
          ''Property '' @ [CHR 0x27] @ Property d @ [CHR 0x27] @ '' added with value '' @
          [CHR 0x27] @ fmtV (DesiredValue d) @ [CHR 0x27]
      | DriftTypeRemoved \<Rightarrow>
          ''Property '' @ [CHR 0x27] @ Property d @ [CHR 0x27] @ '' removed (was '' @
          [CHR 0x27] @ fmtV (CurrentValue d) @ [CHR 0x27] @ '')''
      | DriftTypeModified \<Rightarrow>
          ''Property '' @ [CHR 0x27] @ Property d @ [CHR 0x27] @ '' changed from '' @
          [CHR 0x27] @ fmtV (CurrentValue d) @ [CHR 0x27] @ '' to '' @
          [CHR 0x27] @ fmtV (DesiredValue d) @ [CHR 0x27])"

definition differencesToChanges :: "(string \<times> DriftDifference) list \<Rightarrow> string list" where
  "differencesToChanges differences = map (\<lambda>kd. differenceToChange (snd kd)) differences"

definition extractProviderName :: "string \<Rightarrow> string" where
  "extractProviderName kind = takeWhile (\<lambda>c. c \<noteq> CHR '':'') kind"

datatype drift_error =
    ProviderNotFound string string
  | GetCurrentStateFailed string string

definition DetectDrift :: "(string \<rightharpoonup> Provider) \<Rightarrow> ResourceInstance \<Rightarrow> drift_error + DriftResult" where
  "DetectDrift providers instance =
     (let providerName = extractProviderName (Kind instance) in
      case providers providerName of
        None \<Rightarrow> Inl (ProviderNotFound providerName (ID instance))
      | Some provider \<Rightarrow>
          (case GetCurrentState provider instance of
             Inl err \<Rightarrow> Inl (GetCurrentStateFailed (ID instance) err)
           | Inr None \<Rightarrow>
               Inr \<lparr>HasDrift = True, Changes = [''Resource does not exist''], Differences = [],
                    CurrentState = None, DesiredState = Properties instance\<rparr>
           | Inr (Some currentState) \<Rightarrow>
               (let differences = compareStates currentState (Properties instance);
                    changes = differencesToChanges differences
                in Inr \<lparr>HasDrift = 0 < length differences, Changes = changes,
                        Differences = differences, CurrentState = Some currentState,
                        DesiredState = Properties instance\<rparr>)))"

subsection \<open>Scenario S5: a bucket whose versioning was switched off\<close>

definition s5Current :: props where
  "s5Current = [(''versioning'', VBool False), (''tags'', VMap [(''Env'', VStr ''prod'')]),
     (''arn'', VStr ''arn:aws:s3:::b'')]"

definition s5Provider :: Provider where
  "s5Provider = \<lparr>Initialize = (\<lambda>_. None), Create = (\<lambda>_. None), Update = (\<lambda>_ _. None),
     Delete = (\<lambda>_. None), GetCurrentState = (\<lambda>_. Inr (Some s5Current)),
     ValidateResource = (\<lambda>_. None)\<rparr>"

definition s5Instance :: ResourceInstance where
  "s5Instance = \<lparr>ID = ''aws:s3:bucket.b'', Kind = ''aws:s3:bucket'', Name = ''b'',
     Properties = [(''versioning'', VBool True), (''tags'', VMap [(''Env'', VStr ''prod'')])],
     DriftPolicy = None, DependsOn = []\<rparr>"

section \<open>The dependency graph (package executor)\<close>

datatype NodeStatus = StatusPending | StatusReady | StatusRunning | StatusCompleted | StatusFailed

record DAGNode =
  NodeID :: string
  Instance :: ResourceInstance
  Dependencies :: "string list"
  Dependents :: "string list"
  Status :: NodeStatus
  Error :: "string option"

text \<open>
  The node table \<open>map[string]*DAGNode\<close> is an association list read through \<open>map_of\<close>;
  a \<open>range\<close> over it visits every key once, with the node the lookup gives, which is
  \<open>AList.clearjunk\<close>. The order of the visit is not fixed in Go; \<open>GetExecutionOrder\<close>
  sorts what it collects, so no result depends on it.
\<close>

type_synonym DAG = "(string \<times> DAGNode) list"

definition canExecute :: "string list \<Rightarrow> DAGNode \<Rightarrow> bool" where
  "canExecute processed node = list_all (\<lambda>depID. depID \<in> set processed) (Dependencies node)"

definition findLevel :: "DAG \<Rightarrow> string list \<Rightarrow> string list" where
  "findLevel nodes processed =
     map fst (filter (\<lambda>kn. fst kn \<notin> set processed \<and> canExecute processed (snd kn))
       (AList.clearjunk nodes))"

definition markProcessed :: "string list \<Rightarrow> string list \<Rightarrow> string list" where
  "markProcessed currentLevel processed = fold List.insert currentLevel processed"

lemma length_markProcessed_ge: "length processed \<le> length (markProcessed level processed)"
  unfolding markProcessed_def
proof (induction level arbitrary: processed)
  case Nil
  then show ?case by simp
next
  case (Cons x xs)
  have "length processed \<le> length (List.insert x processed)" by (simp add: List.insert_def)
  also have "\<dots> \<le> length (fold List.insert xs (List.insert x processed))" by (rule Cons.IH)
  finally show ?case by simp
qed

lemma length_markProcessed_gt:
  assumes "level \<noteq> []" and "set level \<inter> set processed = {}"
  shows "length processed < length (markProcessed level processed)"
proof -
  obtain x xs where l: "level = x # xs" using assms(1) by (cases level) auto
  then have "x \<notin> set processed" using assms(2) by auto
  then have "length processed < length (List.insert x processed)" by (simp add: List.insert_def)
  also have "\<dots> \<le> length (markProcessed xs (List.insert x processed))"
    by (rule length_markProcessed_ge)
  finally show ?thesis by (simp add: l markProcessed_def)
qed

lemma findLevel_unprocessed: "set (findLevel nodes processed) \<inter> set processed = {}"
  by (auto simp: findLevel_def)

text \<open>
  The loop of \<open>GetExecutionOrder\<close>: \<open>processed\<close> holds the keys of the Go map of that
  name, each once, so its length is the \<open>len\<close> of the map.
\<close>

function executionLevels :: "DAG \<Rightarrow> string list list \<Rightarrow> string list \<Rightarrow> string list list" where
  "executionLevels nodes levels processed =
     (if length processed < length (AList.clearjunk nodes) then
        (let currentLevel = findLevel nodes processed in
         if length currentLevel = 0 then levels
         else executionLevels nodes (levels @ [sort currentLevel])
                (markProcessed (sort currentLevel) processed))
      else levels)"
  by pat_completeness auto
termination
proof (relation "measure (\<lambda>(nodes, levels, processed). length (AList.clearjunk nodes) - length processed)")
  show "wf (measure (\<lambda>(nodes, levels, processed). length (AList.clearjunk nodes) - length processed))"
    by simp
next
  fix nodes :: DAG and levels :: "string list list" and processed currentLevel :: "string list"
  assume lt: "length processed < length (AList.clearjunk nodes)"
    and cl: "currentLevel = findLevel nodes processed"
    and ne: "length currentLevel \<noteq> 0"
  have "sort currentLevel \<noteq> []" using ne by (metis length_0_conv length_sort)
  moreover have "set (sort currentLevel) \<inter> set processed = {}"
    using findLevel_unprocessed[of nodes processed] cl by simp
  ultimately have "length processed < length (markProcessed (sort currentLevel) processed)"
    by (rule length_markProcessed_gt)
  then show "((nodes, levels @ [sort currentLevel], markProcessed (sort currentLevel) processed),
              (nodes, levels, processed))
             \<in> measure (\<lambda>(nodes, levels, processed). length (AList.clearjunk nodes) - length processed)"
    using lt by simp
qed

definition GetExecutionOrder :: "DAG \<Rightarrow> string list list" where
  "GetExecutionOrder nodes = executionLevels nodes [] []"

definition GetNode :: "DAG \<Rightarrow> string \<Rightarrow> DAGNode option" where
  "GetNode nodes nodeID = map_of nodes nodeID"

definition SetNodeStatus :: "DAG \<Rightarrow> string \<Rightarrow> NodeStatus \<Rightarrow> string option \<Rightarrow> DAG" where
  "SetNodeStatus nodes nodeID status err =
     (case map_of nodes nodeID of
        Some node \<Rightarrow> AList.update nodeID (node\<lparr>Status := status, Error := err\<rparr>) nodes
      | None \<Rightarrow> nodes)"

subsection \<open>Scenario S3: a diamond of four nodes\<close>

definition mkInstance :: "string \<Rightarrow> string \<Rightarrow> string list \<Rightarrow> ResourceInstance" where
  "mkInstance kind name deps = \<lparr>ID = kind @ ''.'' @ name, Kind = kind, Name = name,
     Properties = [], DriftPolicy = None, DependsOn = deps\<rparr>"

definition mkNode :: "ResourceInstance \<Rightarrow> string list \<Rightarrow> DAGNode" where
  "mkNode inst dependents = \<lparr>NodeID = ID inst, Instance = inst, Dependencies = DependsOn inst,
     Dependents = dependents, Status = StatusPending, Error = None\<rparr>"

definition diamond :: DAG where
  "diamond =
     [(''aws:s3:bucket.c'', mkNode (mkInstance ''aws:s3:bucket'' ''c''
          [''aws:s3:bucket.b1'', ''aws:s3:bucket.b2'']) []),
      (''aws:s3:bucket.b2'', mkNode (mkInstance ''aws:s3:bucket'' ''b2'' [''aws:s3:bucket.a''])
          [''aws:s3:bucket.c'']),
      (''aws:s3:bucket.a'', mkNode (mkInstance ''aws:s3:bucket'' ''a'' [])
          [''aws:s3:bucket.b1'', ''aws:s3:bucket.b2'']),
      (''aws:s3:bucket.b1'', mkNode (mkInstance ''aws:s3:bucket'' ''b1'' [''aws:s3:bucket.a''])
          [''aws:s3:bucket.c''])]"

text \<open>
  The property of a level grouping: every level is sorted, and every node of a level is a
  node of the graph whose dependencies all lie in strictly earlier levels.
\<close>

definition levelsOK :: "DAG \<Rightarrow> string list list \<Rightarrow> bool" where
  "levelsOK nodes levels \<longleftrightarrow>
     (\<forall>i<length levels. sorted (levels ! i) \<and>
        (\<forall>n\<in>set (levels ! i). \<exists>node. map_of nodes n = Some node \<and>
           (\<forall>dep\<in>set (Dependencies node). \<exists>j<i. dep \<in> set (levels ! j))))"

section \<open>Batch detection and auto-heal (package drift)\<close>

fun DetectDriftBatchFrom ::
  "(string \<rightharpoonup> Provider) \<Rightarrow> ResourceInstance list \<Rightarrow> (string \<times> DriftResult) list \<Rightarrow>
   drift_error + (string \<times> DriftResult) list" where
  "DetectDriftBatchFrom providers [] results = Inr results"
| "DetectDriftBatchFrom providers (instance # rest) results =
     (case DetectDrift providers instance of
        Inl err \<Rightarrow> Inl err
      | Inr result \<Rightarrow> DetectDriftBatchFrom providers rest (AList.update (ID instance) result results))"

definition DetectDriftBatch ::
  "(string \<rightharpoonup> Provider) \<Rightarrow> ResourceInstance list \<Rightarrow> drift_error + (string \<times> DriftResult) list" where
  "DetectDriftBatch providers instances = DetectDriftBatchFrom providers instances []"

text \<open>
  \<open>Detector.AutoHeal\<close>: the error it returns (if any) and the provider calls it issued.
\<close>

definition DetectorAutoHeal ::
  "(string \<rightharpoonup> Provider) \<Rightarrow> ResourceInstance \<Rightarrow> DriftResult \<Rightarrow> string option \<times> call list" where
  "DetectorAutoHeal providers instance driftResult =
     (case DriftPolicy instance of
        None \<Rightarrow> (None, [])
      | Some policy \<Rightarrow>
          if \<not> AutoHeal policy then (None, [])
          else
            (let providerName = extractProviderName (Kind instance) in
             case providers providerName of
               None \<Rightarrow> (Some (''provider '' @ providerName @ '' not found for resource '' @ ID instance), [])
             | Some provider \<Rightarrow>
                 (case CurrentState driftResult of
                    None \<Rightarrow> (Create provider instance, [CallCreate instance])
                  | Some currentState \<Rightarrow>
                      if HasDrift driftResult
                      then (Update provider instance currentState, [CallUpdate instance currentState])
                      else (None, []))))"

section \<open>The align controller (cmd/align.go)\<close>

text \<open>
  What one tick prints for an instance, and the counters and the provider calls of the
  loop over the instances in \<open>runAlignmentOnce\<close>.
\<close>

datatype align_report =
    ReportNoPolicy string
  | ReportNotifyOnly string DriftResult
  | ReportAttempt string
  | ReportHealFailed string
  | ReportHealed

record align_state =
  driftCount :: nat
  healedCount :: nat
  errorCount :: nat
  reports :: "align_report list"
  calls :: "call list"

definition alignInstance ::
  "(string \<rightharpoonup> Provider) \<Rightarrow> (string \<times> DriftResult) list \<Rightarrow> ResourceInstance \<Rightarrow>
   align_state \<Rightarrow> align_state" where
  "alignInstance providers driftResults instance st =
     (case map_of driftResults (ID instance) of
        None \<Rightarrow> st
      | Some driftResult \<Rightarrow>
          if \<not> HasDrift driftResult then st
          else
            (let st1 = st\<lparr>driftCount := driftCount st + 1\<rparr> in
             case DriftPolicy instance of
               None \<Rightarrow> st1\<lparr>reports := reports st1 @ [ReportNoPolicy (ID instance)]\<rparr>
             | Some policy \<Rightarrow>
                 if NotifyOnly policy
                 then st1\<lparr>reports := reports st1 @ [ReportNotifyOnly (ID instance) driftResult]\<rparr>
                 else if AutoHeal policy then
                   (case DetectorAutoHeal providers instance driftResult of
                      (Some err, cs) \<Rightarrow>
                        st1\<lparr>errorCount := errorCount st1 + 1,
                            reports := reports st1 @ [ReportAttempt (ID instance), ReportHealFailed err],
                            calls := calls st1 @ cs\<rparr>
                    | (None, cs) \<Rightarrow>
                        st1\<lparr>healedCount := healedCount st1 + 1,
                            reports := reports st1 @ [ReportAttempt (ID instance), ReportHealed],
                            calls := calls st1 @ cs\<rparr>)
                 else st1))"

fun alignInstances ::
  "(string \<rightharpoonup> Provider) \<Rightarrow> (string \<times> DriftResult) list \<Rightarrow> ResourceInstance list \<Rightarrow>
   align_state \<Rightarrow> align_state" where
  "alignInstances providers driftResults [] st = st"
| "alignInstances providers driftResults (instance # rest) st =
     alignInstances providers driftResults rest (alignInstance providers driftResults instance st)"

definition alignStart :: align_state where
  "alignStart = \<lparr>driftCount = 0, healedCount = 0, errorCount = 0, reports = [], calls = []\<rparr>"

text \<open>The provider call, if any, that a call of the log makes on an instance.\<close>

fun callInstance :: "call \<Rightarrow> ResourceInstance" where
  "callInstance (CallCreate i) = i"
| "callInstance (CallUpdate i _) = i"
| "callInstance (CallDelete i) = i"

fun isCreateOrUpdate :: "call \<Rightarrow> bool" where
  "isCreateOrUpdate (CallCreate _) = True"
| "isCreateOrUpdate (CallUpdate _ _) = True"
| "isCreateOrUpdate (CallDelete _) = False"

text \<open>
  A call that the align loop may issue for an instance: a create or an update on that
  instance, whose policy asks for auto-heal and not for notify-only, and whose drift
  result reports drift.
\<close>

definition healCall :: "(string \<times> DriftResult) list \<Rightarrow> ResourceInstance \<Rightarrow> call \<Rightarrow> bool" where
  "healCall driftResults instance c \<longleftrightarrow>
     isCreateOrUpdate c \<and> callInstance c = instance \<and>
     (\<exists>policy. DriftPolicy instance = Some policy \<and> AutoHeal policy \<and> \<not> NotifyOnly policy) \<and>
     (\<exists>r. map_of driftResults (ID instance) = Some r \<and> HasDrift r)"

subsection \<open>An instance whose policy sets both autoHeal and notifyOnly\<close>

definition bothPolicy :: ResourceInstance where
  "bothPolicy = \<lparr>ID = ''aws:s3:bucket.b'', Kind = ''aws:s3:bucket'', Name = ''b'',
     Properties = [(''versioning'', VBool True), (''tags'', VMap [(''Env'', VStr ''prod'')])],
     DriftPolicy = Some \<lparr>AutoHeal = True, NotifyOnly = True\<rparr>, DependsOn = []\<rparr>"

definition healPolicy :: ResourceInstance where
  "healPolicy = bothPolicy\<lparr>DriftPolicy := Some \<lparr>AutoHeal = True, NotifyOnly = False\<rparr>\<rparr>"

definition s5Drift :: DriftResult where
  "s5Drift = \<lparr>HasDrift = True,
     Changes = differencesToChanges (compareStates s5Current (Properties s5Instance)),
     Differences = compareStates s5Current (Properties s5Instance),
     CurrentState = Some s5Current, DesiredState = Properties s5Instance\<rparr>"

section \<open>Strings (package strings, strconv)\<close>

fun indexOf :: "string \<Rightarrow> string \<Rightarrow> nat option" where
  "indexOf [] substr = (if substr = [] then Some 0 else None)"
| "indexOf (c # cs) substr =
     (if prefix substr (c # cs) then Some 0 else map_option Suc (indexOf cs substr))"

definition contains :: "string \<Rightarrow> string \<Rightarrow> bool" where
  "contains s substr = (indexOf s substr \<noteq> None)"

definition containsAny :: "string \<Rightarrow> string \<Rightarrow> bool" where
  "containsAny s chars = list_ex (\<lambda>c. c \<in> set chars) s"

text \<open>
  \<open>strings.Count\<close> for a non-empty pattern, the only use the program makes of it: the
  number of non-overlapping occurrences.
\<close>

function countSub :: "string \<Rightarrow> string \<Rightarrow> nat" where
  "countSub s substr =
     (if substr = [] \<or> s = [] then 0
      else if prefix substr s then Suc (countSub (drop (length substr) s) substr)
      else countSub (tl s) substr)"
  by pat_completeness auto
termination
  by (relation "measure (\<lambda>(s, substr). length s)") auto

definition isDigit :: "char \<Rightarrow> bool" where
  "isDigit c = ((48::nat) \<le> of_char c \<and> of_char c \<le> (57::nat))"

definition digitsValue :: "string \<Rightarrow> int" where
  "digitsValue ds = foldl (\<lambda>a c. 10 * a + (int (of_char c) - 48)) 0 ds"

text \<open>
  \<open>strconv.Atoi\<close>: an optional sign and at least one decimal digit, within the range of
  a 64-bit \<open>int\<close>; \<open>None\<close> is its error.
\<close>

definition atoi :: "string \<Rightarrow> int option" where
  "atoi s =
     (let neg = (s \<noteq> [] \<and> hd s = CHR ''-'');
          ds = (if s \<noteq> [] \<and> (hd s = CHR ''-'' \<or> hd s = CHR ''+'') then tl s else s)
      in if ds = [] \<or> \<not> list_all isDigit ds then None
         else (let v = (if neg then - digitsValue ds else digitsValue ds)
               in if v < - (2 ^ 63) \<or> 2 ^ 63 - 1 < v then None else Some v))"

section \<open>Configuration documents (package config)\<close>

text \<open>
  \<open>Count\<close> and \<open>ForEach\<close> are \<open>interface{}\<close> fields: \<open>VNil\<close> when the document does
  not set them.
\<close>

record Resource =
  rKind :: string
  rName :: string
  Count :: val
  ForEach :: val
  rProperties :: props
  rDriftPolicy :: "DriftPolicy option"
  rDependsOn :: "string list"

record ProviderConfig =
  Region :: string
  Profile :: string

record ModuleConfig =
  Source :: string
  Version :: string
  Inputs :: props

record Config =
  Project :: string
  Environment :: string
  Variables :: "props option"
  Providers :: "(string \<times> ProviderConfig) list"
  Modules :: "(string \<times> ModuleConfig) list"
  Resources :: "Resource list"

datatype parse_error =
    DecodeError string
  | UnclosedExpression string
  | EvaluatingExpression string parse_error
  | ProcessingProvider string string parse_error
  | ProcessingModule string parse_error
  | ProcessingResource nat parse_error
  | ProcessingExpressions parse_error
  | ProcessingResourceName parse_error
  | ResolvingCount parse_error
  | ResolvingForEach parse_error
  | ExpandingResource string parse_error
  | AtoiError string
  | CountNotInteger
  | CountBadType
  | ForEachNotArray
  | ForEachBadType

section \<open>The expression evaluator (Parser.evaluateExpr, Parser.evaluateExpression)\<close>

text \<open>
  The expression library (\<open>expr.Compile\<close> followed by \<open>expr.Run\<close>) is not part of the
  program: it is a parameter \<open>engine\<close>, which gives the value of an expression text in an
  environment, or \<open>None\<close> when compiling or running it fails.
\<close>

type_synonym engine = "props \<Rightarrow> string \<Rightarrow> val option"

definition isSimpleVariable :: "string \<Rightarrow> bool" where
  "isSimpleVariable expr = (\<not> containsAny expr '' +-*/()[]{}=<>!&|?:'')"

definition evaluateExpr :: "engine \<Rightarrow> props \<Rightarrow> string \<Rightarrow> parse_error + val" where
  "evaluateExpr engine variables exprStr =
     (case map_of variables exprStr of
        Some v \<Rightarrow> Inr v
      | None \<Rightarrow>
          if isSimpleVariable exprStr then Inr (VStr (''${'' @ exprStr @ ''}''))
          else (case engine variables exprStr of
                  None \<Rightarrow> Inr (VStr (''${'' @ exprStr @ ''}''))
                | Some result \<Rightarrow> Inr result))"

text \<open>
  The substitution loop of \<open>evaluateExpression\<close> for mixed content. It has no bound: a
  run that never leaves the loop is the value \<open>None\<close>.
\<close>

partial_function (option) substituteLoop ::
  "engine \<Rightarrow> props \<Rightarrow> string \<Rightarrow> string \<Rightarrow> (parse_error + val) option" where
  "substituteLoop engine variables input result =
     (case indexOf result ''${'' of
        None \<Rightarrow> Some (Inr (VStr result))
      | Some start \<Rightarrow>
          (case indexOf (drop start result) ''}'' of
             None \<Rightarrow> Some (Inl (UnclosedExpression input))
           | Some e \<Rightarrow>
               (let end = e + start;
                    exprStr = take (end - (start + 2)) (drop (start + 2) result)
                in case evaluateExpr engine variables exprStr of
                     Inl err \<Rightarrow> Some (Inl (EvaluatingExpression exprStr err))
                   | Inr v \<Rightarrow>
                       substituteLoop engine variables input
                         (take start result @ fmtV v @ drop (end + 1) result))))"

declare substituteLoop.simps [code]

definition evaluateExpression :: "engine \<Rightarrow> props \<Rightarrow> string \<Rightarrow> (parse_error + val) option" where
  "evaluateExpression engine variables input =
     (if \<not> contains input ''${'' then Some (Inr (VStr input))
      else if prefix ''${'' input \<and> suffix ''}'' input \<and> countSub input ''${'' = 1
      then Some (evaluateExpr engine variables (take (length input - 3) (drop 2 input)))
      else substituteLoop engine variables input input)"

section \<open>The reflection walk (Parser.processValue)\<close>

text \<open>
  \<open>processValue\<close> is always called on the address of a struct variable. What
  \<open>reflect.ValueOf\<close> gives for it is a pointer value whose element is an addressable
  struct; \<open>Pointer()\<close> of the first and \<open>Addr().Pointer()\<close> of the second are the same
  number, the address of the variable. The walk keeps the set \<open>visited\<close> of the numbers
  it has met. The loop over the exported fields of a struct, which
  \<open>processValueReflectWithVisited\<close> enters only for a struct not visited yet, is the
  parameter \<open>fieldWalk\<close>: it takes the struct and the visited set and gives the struct
  with its fields processed, an error, or \<open>None\<close> when it does not return.
\<close>

type_synonym addr = nat

datatype 'a reflected = Pointer addr "'a reflected" | Struct addr 'a

fun deref :: "'a reflected \<Rightarrow> 'a" where
  "deref (Pointer ptr v) = deref v"
| "deref (Struct ptr x) = x"

definition valueOfAddress :: "addr \<Rightarrow> 'a \<Rightarrow> 'a reflected" where
  "valueOfAddress a x = Pointer a (Struct a x)"

fun processValueReflectWithVisited ::
  "('a \<Rightarrow> addr set \<Rightarrow> (parse_error + 'a) option) \<Rightarrow> 'a reflected \<Rightarrow> addr set \<Rightarrow>
   (parse_error + 'a reflected) option" where
  "processValueReflectWithVisited fieldWalk (Pointer ptr v) visited =
     (if ptr \<in> visited then Some (Inr (Pointer ptr v))
      else (case processValueReflectWithVisited fieldWalk v (insert ptr visited) of
              None \<Rightarrow> None
            | Some (Inl err) \<Rightarrow> Some (Inl err)
            | Some (Inr v') \<Rightarrow> Some (Inr (Pointer ptr v'))))"
| "processValueReflectWithVisited fieldWalk (Struct ptr x) visited =
     (if ptr \<in> visited then Some (Inr (Struct ptr x))
      else (case fieldWalk x (insert ptr visited) of
              None \<Rightarrow> None
            | Some (Inl err) \<Rightarrow> Some (Inl err)
            | Some (Inr x') \<Rightarrow> Some (Inr (Struct ptr x'))))"

definition processValue ::
  "('a \<Rightarrow> addr set \<Rightarrow> (parse_error + 'a) option) \<Rightarrow> addr \<Rightarrow> 'a \<Rightarrow> (parse_error + 'a) option" where
  "processValue fieldWalk a x =
     (case processValueReflectWithVisited fieldWalk (valueOfAddress a x) {} of
        None \<Rightarrow> None
      | Some (Inl err) \<Rightarrow> Some (Inl err)
      | Some (Inr v) \<Rightarrow> Some (Inr (deref v)))"

text \<open>
  What the program takes from outside: the expression library, and the field loops of the
  reflection walk for the two struct types it is applied to, each given the variables of
  the parser that runs it.
\<close>

record runtime =
  exprEngine :: engine
  walkResource :: "props \<Rightarrow> Resource \<Rightarrow> addr set \<Rightarrow> (parse_error + Resource) option"
  walkModule :: "props \<Rightarrow> ModuleConfig \<Rightarrow> addr set \<Rightarrow> (parse_error + ModuleConfig) option"

text \<open>The address of the variable handed to \<open>processValue\<close>; any number does.\<close>

definition variableAddress :: addr where
  "variableAddress = 0"

section \<open>Resource expansion (Parser.ExpandResources)\<close>

record Parser =
  variables :: props

definition createInstance ::
  "runtime \<Rightarrow> Parser \<Rightarrow> Resource \<Rightarrow> props \<Rightarrow> (parse_error + ResourceInstance) option" where
  "createInstance rt p resource vars =
     (let instanceVars = AList.merge (variables p) vars;
          named =
            (if contains (rName resource) ''${'' then
               (case evaluateExpression (exprEngine rt) instanceVars (rName resource) of
                  None \<Rightarrow> None
                | Some (Inl err) \<Rightarrow> Some (Inl (ProcessingResourceName err))
                | Some (Inr (VStr processedStr)) \<Rightarrow> Some (Inr (resource\<lparr>rName := processedStr\<rparr>))
                | Some (Inr _) \<Rightarrow> Some (Inr resource))
             else Some (Inr resource))
      in case named of
           None \<Rightarrow> None
         | Some (Inl err) \<Rightarrow> Some (Inl err)
         | Some (Inr resourceCopy) \<Rightarrow>
             (case processValue (walkResource rt instanceVars) variableAddress resourceCopy of
                None \<Rightarrow> None
              | Some (Inl err) \<Rightarrow> Some (Inl err)
              | Some (Inr resourceCopy') \<Rightarrow>
                  Some (Inr \<lparr>ID = rKind resourceCopy' @ ''.'' @ rName resourceCopy',
                             Kind = rKind resourceCopy', Name = rName resourceCopy',
                             Properties = rProperties resourceCopy',
                             DriftPolicy = rDriftPolicy resourceCopy',
                             DependsOn = rDependsOn resourceCopy'\<rparr>)))"

definition resolveCount :: "runtime \<Rightarrow> Parser \<Rightarrow> val \<Rightarrow> parse_error + int" where
  "resolveCount rt p count =
     (case count of
        VInt v \<Rightarrow> Inr v
      | VStr v \<Rightarrow>
          (case evaluateExpr (exprEngine rt) (variables p) v of
             Inl err \<Rightarrow> Inl err
           | Inr (VInt intVal) \<Rightarrow> Inr intVal
           | Inr (VStr strVal) \<Rightarrow>
               (case atoi strVal of None \<Rightarrow> Inl (AtoiError strVal) | Some n \<Rightarrow> Inr n)
           | Inr _ \<Rightarrow> Inl CountNotInteger)
      | _ \<Rightarrow> Inl CountBadType)"

definition resolveForEach :: "runtime \<Rightarrow> Parser \<Rightarrow> val \<Rightarrow> parse_error + val list" where
  "resolveForEach rt p forEach =
     (case forEach of
        VList v \<Rightarrow> Inr v
      | VStr v \<Rightarrow>
          if prefix ''${'' v \<and> suffix ''}'' v then
            (case evaluateExpr (exprEngine rt) (variables p) (take (length v - 3) (drop 2 v)) of
               Inl err \<Rightarrow> Inl err
             | Inr (VList slice) \<Rightarrow> Inr slice
             | Inr _ \<Rightarrow> Inl ForEachNotArray)
          else Inr [VStr v]
      | _ \<Rightarrow> Inl ForEachBadType)"

text \<open>The variables of one iteration of \<open>for_each\<close>: the type switch on the item.\<close>

definition forEachVars :: "val \<Rightarrow> props" where
  "forEachVars item = (case item of VStr v \<Rightarrow> [(''region'', VStr v)] | _ \<Rightarrow> [(''item'', item)])"

definition countVars :: "nat \<Rightarrow> props" where
  "countVars i = [(''index'', VInt (int i))]"

fun createInstances ::
  "runtime \<Rightarrow> Parser \<Rightarrow> Resource \<Rightarrow> props list \<Rightarrow> ResourceInstance list \<Rightarrow>
   (parse_error + ResourceInstance list) option" where
  "createInstances rt p resource [] instances = Some (Inr instances)"
| "createInstances rt p resource (vars # rest) instances =
     (case createInstance rt p resource vars of
        None \<Rightarrow> None
      | Some (Inl err) \<Rightarrow> Some (Inl err)
      | Some (Inr instance) \<Rightarrow> createInstances rt p resource rest (instances @ [instance]))"

definition expandResource ::
  "runtime \<Rightarrow> Parser \<Rightarrow> Resource \<Rightarrow> (parse_error + ResourceInstance list) option" where
  "expandResource rt p resource =
     (if Count resource \<noteq> VNil then
        (case resolveCount rt p (Count resource) of
           Inl err \<Rightarrow> Some (Inl (ResolvingCount err))
         | Inr count \<Rightarrow> createInstances rt p resource (map countVars [0..<nat count]) [])
      else if ForEach resource \<noteq> VNil then
        (case resolveForEach rt p (ForEach resource) of
           Inl err \<Rightarrow> Some (Inl (ResolvingForEach err))
         | Inr items \<Rightarrow> createInstances rt p resource (map forEachVars items) [])
      else
        (case createInstance rt p resource [] of
           None \<Rightarrow> None
         | Some (Inl err) \<Rightarrow> Some (Inl err)
         | Some (Inr instance) \<Rightarrow> Some (Inr [instance])))"

fun expandFrom ::
  "runtime \<Rightarrow> Parser \<Rightarrow> Resource list \<Rightarrow> ResourceInstance list \<Rightarrow>
   (parse_error + ResourceInstance list) option" where
  "expandFrom rt p [] instances = Some (Inr instances)"
| "expandFrom rt p (resource # rest) instances =
     (case expandResource rt p resource of
        None \<Rightarrow> None
      | Some (Inl err) \<Rightarrow> Some (Inl (ExpandingResource (rName resource) err))
      | Some (Inr expanded) \<Rightarrow> expandFrom rt p rest (instances @ expanded))"

definition ExpandResources ::
  "runtime \<Rightarrow> Parser \<Rightarrow> Resource list \<Rightarrow> (parse_error + ResourceInstance list) option" where
  "ExpandResources rt p resources = expandFrom rt p resources []"

subsection \<open>Inputs of the expansion examples\<close>

text \<open>
  A runtime whose expression library evaluates nothing and whose field loops never
  return; the examples below reach neither.
\<close>

definition bareRuntime :: runtime where
  "bareRuntime = \<lparr>exprEngine = (\<lambda>_ _. None), walkResource = (\<lambda>_ _ _. None),
     walkModule = (\<lambda>_ _ _. None)\<rparr>"

definition mkResource :: "string \<Rightarrow> string \<Rightarrow> val \<Rightarrow> val \<Rightarrow> Resource" where
  "mkResource kind name count forEach = \<lparr>rKind = kind, rName = name, Count = count,
     ForEach = forEach, rProperties = [(''versioning'', VBool True)], rDriftPolicy = None,
     rDependsOn = []\<rparr>"

definition instanceOf :: "Resource \<Rightarrow> string \<Rightarrow> ResourceInstance" where
  "instanceOf resource name = \<lparr>ID = rKind resource @ ''.'' @ name, Kind = rKind resource,
     Name = name, Properties = rProperties resource, DriftPolicy = rDriftPolicy resource,
     DependsOn = rDependsOn resource\<rparr>"

definition itemBucket :: Resource where
  "itemBucket = mkResource ''aws:s3:bucket'' ''${item}'' VNil (VList [VStr ''us-east-1''])"

definition regionBuckets :: Resource where
  "regionBuckets =
     mkResource ''aws:s3:bucket'' ''logs-${region}'' VNil (VList [VStr ''us-east-1'', VStr ''us-west-2''])"

definition logsBucket :: Resource where
  "logsBucket = mkResource ''aws:s3:bucket'' ''logs'' VNil VNil"


definition negativeWeb :: Resource where
  "negativeWeb = mkResource ''aws:ec2:instance'' ''web-${index}'' (VInt (- 1)) VNil"

definition replicasWeb :: Resource where
  "replicasWeb = mkResource ''aws:ec2:instance'' ''web-${index}'' (VStr ''replicas'') VNil"

section \<open>Parsing a decoded document (Parser.Parse)\<close>

text \<open>
  Reading the file and decoding the YAML are outside the program: \<open>ParseFile\<close> takes
  what they give, an error message or the decoded document. One pass over a string field
  that holds a fragment replaces it when the evaluation gives a string.
\<close>

definition processStringField :: "runtime \<Rightarrow> props \<Rightarrow> string \<Rightarrow> (parse_error + string) option" where
  "processStringField rt vars s =
     (if contains s ''${'' then
        (case evaluateExpression (exprEngine rt) vars s of
           None \<Rightarrow> None
         | Some (Inl err) \<Rightarrow> Some (Inl err)
         | Some (Inr (VStr processedStr)) \<Rightarrow> Some (Inr processedStr)
         | Some (Inr _) \<Rightarrow> Some (Inr s))
      else Some (Inr s))"

fun processProviders ::
  "runtime \<Rightarrow> props \<Rightarrow> (string \<times> ProviderConfig) list \<Rightarrow>
   (parse_error + (string \<times> ProviderConfig) list) option" where
  "processProviders rt vars [] = Some (Inr [])"
| "processProviders rt vars ((name, provider) # rest) =
     (case processStringField rt vars (Region provider) of
        None \<Rightarrow> None
      | Some (Inl err) \<Rightarrow> Some (Inl (ProcessingProvider name ''region'' err))
      | Some (Inr region) \<Rightarrow>
          (case processStringField rt vars (Profile provider) of
             None \<Rightarrow> None
           | Some (Inl err) \<Rightarrow> Some (Inl (ProcessingProvider name ''profile'' err))
           | Some (Inr profile) \<Rightarrow>
               (case processProviders rt vars rest of
                  None \<Rightarrow> None
                | Some (Inl err) \<Rightarrow> Some (Inl err)
                | Some (Inr rest') \<Rightarrow>
                    Some (Inr ((name, provider\<lparr>Region := region, Profile := profile\<rparr>) # rest')))))"

fun processModules ::
  "runtime \<Rightarrow> props \<Rightarrow> (string \<times> ModuleConfig) list \<Rightarrow>
   (parse_error + (string \<times> ModuleConfig) list) option" where
  "processModules rt vars [] = Some (Inr [])"
| "processModules rt vars ((name, module) # rest) =
     (case processValue (walkModule rt vars) variableAddress module of
        None \<Rightarrow> None
      | Some (Inl err) \<Rightarrow> Some (Inl (ProcessingModule name err))
      | Some (Inr module') \<Rightarrow>
          (case processModules rt vars rest of
             None \<Rightarrow> None
           | Some (Inl err) \<Rightarrow> Some (Inl err)
           | Some (Inr rest') \<Rightarrow> Some (Inr ((name, module') # rest'))))"

fun processResources ::
  "runtime \<Rightarrow> props \<Rightarrow> nat \<Rightarrow> Resource list \<Rightarrow> (parse_error + Resource list) option" where
  "processResources rt vars i [] = Some (Inr [])"
| "processResources rt vars i (resource # rest) =
     (case processValue (walkResource rt vars) variableAddress resource of
        None \<Rightarrow> None
      | Some (Inl err) \<Rightarrow> Some (Inl (ProcessingResource i err))
      | Some (Inr resource') \<Rightarrow>
          (case processResources rt vars (Suc i) rest of
             None \<Rightarrow> None
           | Some (Inl err) \<Rightarrow> Some (Inl err)
           | Some (Inr rest') \<Rightarrow> Some (Inr (resource' # rest'))))"

definition processExpressions :: "runtime \<Rightarrow> Parser \<Rightarrow> Config \<Rightarrow> (parse_error + Config) option" where
  "processExpressions rt p config =
     (case processProviders rt (variables p) (Providers config) of
        None \<Rightarrow> None
      | Some (Inl err) \<Rightarrow> Some (Inl err)
      | Some (Inr providers) \<Rightarrow>
          (case processModules rt (variables p) (Modules config) of
             None \<Rightarrow> None
           | Some (Inl err) \<Rightarrow> Some (Inl err)
           | Some (Inr modules) \<Rightarrow>
               (case processResources rt (variables p) 0 (Resources config) of
                  None \<Rightarrow> None
                | Some (Inl err) \<Rightarrow> Some (Inl err)
                | Some (Inr resources) \<Rightarrow>
                    Some (Inr (config\<lparr>Providers := providers, Modules := modules,
                                       Resources := resources\<rparr>)))))"

text \<open>
  \<open>Parse\<close> makes the variables of the document, with \<open>environment\<close> and \<open>project\<close>
  added, the variables of the parser; it returns the parser with the document.
\<close>

definition Parse :: "runtime \<Rightarrow> Config \<Rightarrow> (parse_error + Parser \<times> Config) option" where
  "Parse rt config =
     (let vars = AList.update ''project'' (VStr (Project config))
                   (AList.update ''environment'' (VStr (Environment config))
                      (case Variables config of None \<Rightarrow> [] | Some v \<Rightarrow> v));
          p = \<lparr>variables = vars\<rparr>;
          config1 = config\<lparr>Variables := map_option (\<lambda>_. vars) (Variables config)\<rparr>
      in case processExpressions rt p config1 of
           None \<Rightarrow> None
         | Some (Inl err) \<Rightarrow> Some (Inl (ProcessingExpressions err))
         | Some (Inr config2) \<Rightarrow> Some (Inr (p, config2)))"

definition ParseFile :: "runtime \<Rightarrow> string + Config \<Rightarrow> (parse_error + Parser \<times> Config) option" where
  "ParseFile rt decoded =
     (case decoded of
        Inl msg \<Rightarrow> Some (Inl (DecodeError msg))
      | Inr config \<Rightarrow> Parse rt config)"

section \<open>The policy engine (package policy)\<close>

record PolicyRule =
  ruleName :: string
  ruleDescription :: string
  ruleSeverity :: string
  ruleCondition :: string
  ruleMessage :: string
  ruleMetadata :: props

record PolicyViolation =
  Rule :: PolicyRule
  ResourceID :: string
  ResourceKind :: string
  Message :: string
  Severity :: string
  Metadata :: props















section \<open>The bootstrap command (cmd, runBootstrap)\<close>

datatype validation_error =
    ProviderNotAvailable string
  | ValidationExpandFailed parse_error
  | ValidationProviderNotFound string string
  | ResourceValidationFailed string string

datatype provider_setup_error =
    UnsupportedProvider string
  | InitializeProviderFailed string string

datatype bootstrap_error =
    ParseConfigurationFailed parse_error
  | ProviderSetupFailed provider_setup_error
  | ConfigurationValidationFailed validation_error
  | ExpandResourcesFailed parse_error
  | LoadBuiltinPoliciesFailed string
  | EvaluatePoliciesFailed string string
  | PolicyViolationsFound
  | InvalidModuleConfiguration string string
  | LoadModuleFailed string string
  | RegisterModuleFailed string string
  | FormatOutputFailed string

record BootstrapResult =
  Success :: bool
  ProvidersInstalled :: "string list"
  ResourceCount :: nat
  ModulesLoaded :: nat
  PolicyViolations :: "PolicyViolation list"
  BootstrapError :: "bootstrap_error option"

text \<open>
  Every call a command makes on a provider: the two that read (\<open>Initialize\<close>,
  \<open>ValidateResource\<close>) and the calls that change the cloud.
\<close>

datatype provider_event =
    EventInitialize string props
  | EventValidate ResourceInstance
  | EventCall call

text \<open>
  What a command takes from outside: the runtime of the parser, the AWS adapter made by
  \<open>aws.NewProvider\<close>, the file system seen by the loader of local modules, and the error
  (if any) of the output formatter.
\<close>

record environment =
  parserRuntime :: runtime
  awsProvider :: Provider
  loadLocalModule :: "string \<Rightarrow> string option"
  formatBootstrapResult :: "BootstrapResult \<Rightarrow> string option"



text \<open>The loop that installs the providers of the document; only \<open>aws\<close> is known.\<close>

fun installProviders ::
  "environment \<Rightarrow> (string \<times> ProviderConfig) list \<Rightarrow> (string \<times> Provider) list \<Rightarrow> string list \<Rightarrow>
   provider_event list \<Rightarrow>
   provider_setup_error option \<times> (string \<times> Provider) list \<times> string list \<times> provider_event list" where
  "installProviders env [] registry installed evs = (None, registry, installed, evs)"
| "installProviders env ((providerName, providerConfig) # rest) registry installed evs =
     (if providerName \<noteq> ''aws'' then (Some (UnsupportedProvider providerName), registry, installed, evs)
      else
        (let provider = awsProvider env;
             providerConfigMap = [(''region'', VStr (Region providerConfig)),
                                  (''profile'', VStr (Profile providerConfig))];
             evs1 = evs @ [EventInitialize providerName providerConfigMap]
         in case Initialize provider providerConfigMap of
              Some err \<Rightarrow> (Some (InitializeProviderFailed providerName err), registry, installed, evs1)
            | None \<Rightarrow>
                installProviders env rest (AList.update providerName provider registry)
                  (installed @ [providerName]) evs1))"













subsection \<open>Scenario S6: a bucket without versioning, then with a large instance beside it\<close>

definition s6Environment :: environment where
  "s6Environment = \<lparr>parserRuntime = bareRuntime, awsProvider = s5Provider,
     loadLocalModule = (\<lambda>_. None), formatBootstrapResult = (\<lambda>_. None)\<rparr>"



definition s6Config :: "Resource list \<Rightarrow> Config" where
  "s6Config resources = \<lparr>Project = ''demo'', Environment = ''dev'', Variables = None,
     Providers = [(''aws'', \<lparr>Region = ''us-east-1'', Profile = ''''\<rparr>)], Modules = [],
     Resources = resources\<rparr>"


section \<open>The align command (cmd/align.go, runAlignmentOnce)\<close>

datatype align_error =
    AlignParseFailed parse_error
  | AlignProviderSetupFailed provider_setup_error
  | AlignExpandFailed parse_error
  | AlignDetectFailed drift_error

text \<open>
  One tick: parse, install the providers, expand, detect drift for every instance, then
  the loop over the instances. The detector reads the registry as a map.
\<close>

definition runAlignmentOnce :: "environment \<Rightarrow> string + Config \<Rightarrow> (align_error + align_state) option" where
  "runAlignmentOnce env decoded =
     (case ParseFile (parserRuntime env) decoded of
        None \<Rightarrow> None
      | Some (Inl err) \<Rightarrow> Some (Inl (AlignParseFailed err))
      | Some (Inr (parser, cfg)) \<Rightarrow>
          (case installProviders env (AList.clearjunk (Providers cfg)) [] [] [] of
             (Some err, registry, installed, evs) \<Rightarrow> Some (Inl (AlignProviderSetupFailed err))
           | (None, registry, installed, evs) \<Rightarrow>
               (case ExpandResources (parserRuntime env) parser (Resources cfg) of
                  None \<Rightarrow> None
                | Some (Inl err) \<Rightarrow> Some (Inl (AlignExpandFailed err))
                | Some (Inr instances) \<Rightarrow>
                    (case DetectDriftBatch (map_of registry) instances of
                       Inl err \<Rightarrow> Some (Inl (AlignDetectFailed err))
                     | Inr driftResults \<Rightarrow>
                         Some (Inr (alignInstances (map_of registry) driftResults instances
                                      alignStart))))))"

subsection \<open>A drifted bucket under the two policies\<close>

definition driftedBucket :: "DriftPolicy \<Rightarrow> Resource" where
  "driftedBucket policy = \<lparr>rKind = ''aws:s3:bucket'', rName = ''b'', Count = VNil, ForEach = VNil,
     rProperties = [(''versioning'', VBool True), (''tags'', VMap [(''Env'', VStr ''prod'')])],
     rDriftPolicy = Some policy, rDependsOn = []\<rparr>"

section \<open>The commit controller (cmd/commit.go, executeChanges)\<close>

datatype ChangeType = ChangeTypeCreate | ChangeTypeUpdate | ChangeTypeDelete

record Change =
  Type :: ChangeType
  ChangeResourceID :: string
  ChangeResourceKind :: string
  ChangeResourceName :: string

record ExecutionResult =
  ExecSuccess :: bool
  ExecChanges :: "Change list"
  ExecErrors :: "string list"

record nodeResult =
  resNodeID :: string
  resChange :: "Change option"
  resErr :: "string option"

text \<open>
  The body of the goroutine started for a node: its result, the node table after it, and
  the provider calls it issued.
\<close>

definition executeNode ::
  "(string \<times> Provider) list \<Rightarrow> (string \<times> DriftResult) list \<Rightarrow> DAG \<Rightarrow> string \<Rightarrow>
   nodeResult \<times> DAG \<times> call list" where
  "executeNode registry driftResults dag n =
     (case GetNode dag n of
        None \<Rightarrow> (\<lparr>resNodeID = n, resChange = None, resErr = Some (''node '' @ n @ '' not found'')\<rparr>, dag, [])
      | Some node \<Rightarrow>
          (case map_of driftResults n of
             None \<Rightarrow> (\<lparr>resNodeID = n, resChange = None, resErr = None\<rparr>, dag, [])
           | Some driftResult \<Rightarrow>
               (let dag1 = SetNodeStatus dag n StatusRunning None;
                    providerName = extractProviderName (Kind (Instance node))
                in case map_of registry providerName of
                     None \<Rightarrow>
                       (let e = ''provider '' @ providerName @ '' not found''
                        in (\<lparr>resNodeID = n, resChange = None, resErr = Some e\<rparr>,
                            SetNodeStatus dag1 n StatusFailed (Some e), []))
                   | Some provider \<Rightarrow>
                       (let (e, ch, cs) =
                          (case CurrentState driftResult of
                             None \<Rightarrow>
                               (let e = Create provider (Instance node)
                                in (e,
                                    if e = None then
                                      Some \<lparr>Type = ChangeTypeCreate, ChangeResourceID = n,
                                            ChangeResourceKind = Kind (Instance node),
                                            ChangeResourceName = Name (Instance node)\<rparr>
                                    else None,
                                    [CallCreate (Instance node)]))
                           | Some currentState \<Rightarrow>
                               if HasDrift driftResult then
                                 (let e = Update provider (Instance node) currentState
                                  in (e,
                                      if e = None then
                                        Some \<lparr>Type = ChangeTypeUpdate, ChangeResourceID = n,
                                              ChangeResourceKind = Kind (Instance node),
                                              ChangeResourceName = Name (Instance node)\<rparr>
                                      else None,
                                      [CallUpdate (Instance node) currentState]))
                               else (None, None, []))
                        in (\<lparr>resNodeID = n, resChange = ch, resErr = e\<rparr>,
                            (if e \<noteq> None then SetNodeStatus dag1 n StatusFailed e
                             else SetNodeStatus dag1 n StatusCompleted None),
                            cs)))))"

record commit_state =
  nodeTable :: DAG
  execResult :: ExecutionResult
  issued :: "call list"

text \<open>What the collecting loop does with the result of one node.\<close>

definition collect :: "nodeResult \<Rightarrow> ExecutionResult \<Rightarrow> ExecutionResult" where
  "collect res result =
     (let result1 = (case resErr res of
                       Some e \<Rightarrow> result\<lparr>ExecErrors := ExecErrors result @ [e], ExecSuccess := False\<rparr>
                     | None \<Rightarrow> result)
      in case resChange res of
           Some c \<Rightarrow> result1\<lparr>ExecChanges := ExecChanges result1 @ [c]\<rparr>
         | None \<Rightarrow> result1)"

text \<open>
  A level starts one goroutine per node and waits for all their results. The goroutines of
  a level work on different nodes, and a provider is a function of its arguments, so the
  model runs them one after the other in the order of the level; in Go the order in which
  the results arrive is not fixed.
\<close>

fun executeLevel ::
  "(string \<times> Provider) list \<Rightarrow> (string \<times> DriftResult) list \<Rightarrow> string list \<Rightarrow> commit_state \<Rightarrow>
   commit_state" where
  "executeLevel registry driftResults [] st = st"
| "executeLevel registry driftResults (n # rest) st =
     (case executeNode registry driftResults (nodeTable st) n of
        (res, dag', cs) \<Rightarrow>
          executeLevel registry driftResults rest
            \<lparr>nodeTable = dag', execResult = collect res (execResult st), issued = issued st @ cs\<rparr>)"

fun executeLevels ::
  "(string \<times> Provider) list \<Rightarrow> (string \<times> DriftResult) list \<Rightarrow> string list list \<Rightarrow> commit_state \<Rightarrow>
   commit_state" where
  "executeLevels registry driftResults [] st = st"
| "executeLevels registry driftResults (level # rest) st =
     executeLevels registry driftResults rest (executeLevel registry driftResults level st)"

definition executeChanges ::
  "(string \<times> Provider) list \<Rightarrow> (string \<times> DriftResult) list \<Rightarrow> DAG \<Rightarrow> commit_state" where
  "executeChanges registry driftResults d =
     executeLevels registry driftResults (GetExecutionOrder d)
       \<lparr>nodeTable = d, execResult = \<lparr>ExecSuccess = True, ExecChanges = [], ExecErrors = []\<rparr>, issued = []\<rparr>"

text \<open>The provider call that the drift result of a node asks for, and its error.\<close>

definition callsFor :: "ResourceInstance \<Rightarrow> DriftResult \<Rightarrow> call list" where
  "callsFor inst driftResult =
     (case CurrentState driftResult of
        None \<Rightarrow> [CallCreate inst]
      | Some currentState \<Rightarrow> if HasDrift driftResult then [CallUpdate inst currentState] else [])"

definition callError :: "Provider \<Rightarrow> ResourceInstance \<Rightarrow> DriftResult \<Rightarrow> string option" where
  "callError provider inst driftResult =
     (case CurrentState driftResult of
        None \<Rightarrow> Create provider inst
      | Some currentState \<Rightarrow> if HasDrift driftResult then Update provider inst currentState else None)"

definition sameInstances :: "DAG \<Rightarrow> DAG \<Rightarrow> bool" where
  "sameInstances d d' \<longleftrightarrow> (\<forall>n. map_option Instance (map_of d' n) = map_option Instance (map_of d n))"

subsection \<open>A chain of two nodes whose first creation fails\<close>

definition chainA :: ResourceInstance where
  "chainA = mkInstance ''aws:s3:bucket'' ''a'' []"

definition chainB :: ResourceInstance where
  "chainB = mkInstance ''aws:s3:bucket'' ''b'' [''aws:s3:bucket.a'']"

definition chain :: DAG where
  "chain = [(''aws:s3:bucket.a'', mkNode chainA [''aws:s3:bucket.b'']),
            (''aws:s3:bucket.b'', mkNode chainB [])]"

definition failingFirst :: Provider where
  "failingFirst = \<lparr>Initialize = (\<lambda>_. None),
     Create = (\<lambda>i. if Name i = ''a'' then Some ''AccessDenied'' else None),
     Update = (\<lambda>_ _. None), Delete = (\<lambda>_. None), GetCurrentState = (\<lambda>_. Inr None),
     ValidateResource = (\<lambda>_. None)\<rparr>"

definition absent :: "ResourceInstance \<Rightarrow> DriftResult" where
  "absent inst = \<lparr>HasDrift = True, Changes = [''Resource does not exist''], Differences = [],
     CurrentState = None, DesiredState = Properties inst\<rparr>"

definition chainDrift :: "(string \<times> DriftResult) list" where
  "chainDrift = [(''aws:s3:bucket.a'', absent chainA), (''aws:s3:bucket.b'', absent chainB)]"

text \<open>
  What a step of the execution keeps: the instances of the node table, the calls issued
  and the errors recorded so far, and the agreement of the success flag with the errors.
\<close>

definition stepOK :: "commit_state \<Rightarrow> commit_state \<Rightarrow> bool" where
  "stepOK st st' \<longleftrightarrow>
     sameInstances (nodeTable st) (nodeTable st') \<and>
     set (issued st) \<subseteq> set (issued st') \<and>
     set (ExecErrors (execResult st)) \<subseteq> set (ExecErrors (execResult st')) \<and>
     ((ExecSuccess (execResult st) \<longleftrightarrow> ExecErrors (execResult st) = []) \<longrightarrow>
      (ExecSuccess (execResult st') \<longleftrightarrow> ExecErrors (execResult st') = []))"

text \<open>
  A node has been run in a state: if the graph, the drift results and the registry know
  it, the call its drift result asks for is among the calls issued, and the error of that
  call (if any) among the errors recorded.
\<close>

definition ran ::
  "(string \<times> Provider) list \<Rightarrow> (string \<times> DriftResult) list \<Rightarrow> DAG \<Rightarrow> string \<Rightarrow> commit_state \<Rightarrow> bool" where
  "ran registry driftResults d n st \<longleftrightarrow>
     (\<forall>node driftResult provider.
        GetNode d n = Some node \<and> map_of driftResults n = Some driftResult \<and>
        map_of registry (extractProviderName (Kind (Instance node))) = Some provider \<longrightarrow>
        set (callsFor (Instance node) driftResult) \<subseteq> set (issued st) \<and>
        set_option (callError provider (Instance node) driftResult) \<subseteq> set (ExecErrors (execResult st)))"

section \<open>Verified properties\<close>

subsection \<open>Drift detection\<close>

lemma compareDesired_keys:
  "fst ` set (compareDesired current desired acc) \<subseteq> fst ` set acc \<union> fst ` set desired"
proof (induction desired arbitrary: acc)
  case Nil
  then show ?case by simp
next
  case (Cons kv rest)
  obtain key v where kv: "kv = (key, v)" by (cases kv)
  have step: "fst ` set (compareDesired current rest (AList.update key d acc))
                \<subseteq> fst ` set acc \<union> fst ` set (kv # rest)" for d
    using Cons.IH[of "AList.update key d acc"] by (auto simp: dom_update kv)
  have keep: "fst ` set (compareDesired current rest acc) \<subseteq> fst ` set acc \<union> fst ` set (kv # rest)"
    using Cons.IH[of acc] by auto
  show ?case
    unfolding kv compareDesired.simps
    using step keep unfolding kv by (simp split: option.split)
qed

lemma compareCurrent_keys:
  "fst ` set (compareCurrent desired current acc) \<subseteq>
     fst ` set acc \<union> {k \<in> fst ` set current. \<not> isMetadataField k \<and> map_of desired k = None}"
proof (induction current arbitrary: acc)
  case Nil
  then show ?case by simp
next
  case (Cons kv rest)
  obtain key v where kv: "kv = (key, v)" by (cases kv)
  let ?K = "\<lambda>cur. {k \<in> fst ` set cur. \<not> isMetadataField k \<and> map_of desired k = None}"
  have mono: "?K rest \<subseteq> ?K (kv # rest)" by auto
  have keep: "fst ` set (compareCurrent desired rest acc) \<subseteq> fst ` set acc \<union> ?K (kv # rest)"
  proof -
    have "fst ` set (compareCurrent desired rest acc) \<subseteq> fst ` set acc \<union> ?K rest"
      by (rule Cons.IH)
    also have "\<dots> \<subseteq> fst ` set acc \<union> ?K (kv # rest)"
      using mono by (rule Un_mono[OF subset_refl])
    finally show ?thesis .
  qed
  have step: "fst ` set (compareCurrent desired rest (AList.update key d acc))
                \<subseteq> fst ` set acc \<union> ?K (kv # rest)"
    if "\<not> isMetadataField key" "map_of desired key = None" for d
  proof -
    have "key \<in> ?K (kv # rest)" using that by (simp add: kv)
    then have "fst ` set (AList.update key d acc) \<union> ?K rest \<subseteq> fst ` set acc \<union> ?K (kv # rest)"
      using mono unfolding dom_update by (intro Un_least) (simp, rule le_supI1, rule subset_refl, rule le_supI2, assumption)
    with Cons.IH[of "AList.update key d acc"] show ?thesis by (rule subset_trans)
  qed
  show ?case
    unfolding kv compareCurrent.simps
    using step keep unfolding kv by (simp split: option.split)
qed

lemma isMetadataFieldIn_set: "isMetadataFieldIn fs k \<longleftrightarrow> k \<in> set fs"
  by (induction fs) auto

text \<open>
  Claim C2. A property whose name is one of the ten metadata names and which the desired
  state does not mention has no entry in the differences computed by \<open>compareStates\<close>,
  whatever the current state holds for it; so it is never classified as removed (nor as
  anything else).
\<close>

theorem compareStates_ignores_metadata:
  assumes "key \<in> {''arn'', ''id'', ''creation_date'', ''last_modified'', ''status'',
     ''state'', ''availability_zone'', ''instance_id'', ''vpc_id'', ''subnet_id''}"
    and "map_of current key = Some v"
    and "map_of desired key = None"
  shows "map_of (compareStates current desired) key = None"
proof -
  have m: "isMetadataField key"
    using assms(1) unfolding isMetadataField_def isMetadataFieldIn_set metadataFields_def by simp
  have "key \<notin> fst ` set desired" using assms(3) by (simp add: map_of_eq_None_iff)
  then have "key \<notin> fst ` set (compareDesired current desired [])"
    using compareDesired_keys[of current desired "[]"] by auto
  then have "key \<notin> fst ` set (compareStates current desired)"
    using compareCurrent_keys[of desired current "compareDesired current desired []"] m
    unfolding compareStates_def by auto
  then show ?thesis by (simp add: map_of_eq_None_iff)
qed

theorem compareStates_ignores_metadata_witness:
  "map_of s5Current ''arn'' = Some (VStr ''arn:aws:s3:::b'') \<and>
   map_of (Properties s5Instance) ''arn'' = None \<and>
   map_of (compareStates s5Current (Properties s5Instance)) ''arn'' = None"
proof -
  have h1: "''arn'' \<in> {''arn'', ''id'', ''creation_date'', ''last_modified'', ''status'',
     ''state'', ''availability_zone'', ''instance_id'', ''vpc_id'', ''subnet_id''}" by simp
  have h2: "map_of s5Current ''arn'' = Some (VStr ''arn:aws:s3:::b'')"
    by (simp add: s5Current_def)
  have h3: "map_of (Properties s5Instance) ''arn'' = None"
    by (simp add: s5Instance_def)
  show ?thesis using compareStates_ignores_metadata[OF h1 h2 h3] h2 h3 by simp
qed

text \<open>
  Claim C1. When the provider of the instance is registered and answers the state query,
  \<open>DetectDrift\<close> returns a result whose differences are empty if the resource is absent
  and are the computed comparison otherwise, and whose \<open>HasDrift\<close> flag holds exactly when
  the differences are non-empty or the current state is absent.
\<close>

theorem DetectDrift_hasDrift:
  assumes "providers (extractProviderName (Kind instance)) = Some provider"
    and "GetCurrentState provider instance = Inr current"
  shows "\<exists>r. DetectDrift providers instance = Inr r \<and> CurrentState r = current \<and>
           DesiredState r = Properties instance \<and>
           Differences r = (case current of None \<Rightarrow> [] | Some c \<Rightarrow> compareStates c (Properties instance)) \<and>
           (HasDrift r \<longleftrightarrow> Differences r \<noteq> [] \<or> current = None)"
  using assms by (cases current) (simp_all add: DetectDrift_def Let_def)

theorem DetectDrift_hasDrift_witness:
  "HasDrift (projr (DetectDrift [''aws'' \<mapsto> s5Provider] s5Instance)) \<and>
   map fst (Differences (projr (DetectDrift [''aws'' \<mapsto> s5Provider] s5Instance))) = [''versioning'']"
proof -
  have h1: "[''aws'' \<mapsto> s5Provider] (extractProviderName (Kind s5Instance)) = Some s5Provider"
    by (simp add: extractProviderName_def s5Instance_def)
  have h2: "GetCurrentState s5Provider s5Instance = Inr (Some s5Current)"
    by (simp add: s5Provider_def)
  have c: "compareStates s5Current (Properties s5Instance)
      = [(''versioning'', \<lparr>Property = ''versioning'', CurrentValue = VBool False,
           DesiredValue = VBool True, DriftType = DriftTypeModified\<rparr>)]"
    by (simp add: compareStates_def s5Instance_def s5Current_def valuesEqual_def
        isMetadataField_def metadataFields_def)
  show ?thesis
    using DetectDrift_hasDrift[of "[''aws'' \<mapsto> s5Provider]" s5Instance s5Provider, OF h1 h2] c
    by auto
qed

subsection \<open>Execution order\<close>

lemma set_markProcessed: "set (markProcessed level processed) = set level \<union> set processed"
  unfolding markProcessed_def by (induction level arbitrary: processed) auto

lemma findLevel_node:
  assumes "n \<in> set (findLevel nodes processed)"
  shows "\<exists>node. map_of nodes n = Some node \<and> set (Dependencies node) \<subseteq> set processed"
proof -
  from assms obtain node where in_cj: "(n, node) \<in> set (AList.clearjunk nodes)"
    and ce: "canExecute processed node"
    by (auto simp: findLevel_def)
  have "map_of (AList.clearjunk nodes) n = Some node"
    using in_cj distinct_clearjunk by (metis map_of_is_SomeI)
  then have "map_of nodes n = Some node" by (simp add: map_of_clearjunk)
  moreover have "set (Dependencies node) \<subseteq> set processed"
    using ce by (auto simp: canExecute_def list_all_iff)
  ultimately show ?thesis by blast
qed

lemma levelsOK_step:
  assumes ok: "levelsOK nodes levels"
    and pr: "set processed = \<Union> (set ` set levels)"
  shows "levelsOK nodes (levels @ [sort (findLevel nodes processed)])"
  unfolding levelsOK_def
proof (intro allI impI)
  fix i assume i: "i < length (levels @ [sort (findLevel nodes processed)])"
  let ?L = "levels @ [sort (findLevel nodes processed)]"
  show "sorted (?L ! i) \<and>
        (\<forall>n\<in>set (?L ! i). \<exists>node. map_of nodes n = Some node \<and>
           (\<forall>dep\<in>set (Dependencies node). \<exists>j<i. dep \<in> set (?L ! j)))"
  proof (cases "i < length levels")
    case True
    then have eq: "?L ! i = levels ! i" by (simp add: nth_append)
    have old: "sorted (levels ! i) \<and>
        (\<forall>n\<in>set (levels ! i). \<exists>node. map_of nodes n = Some node \<and>
           (\<forall>dep\<in>set (Dependencies node). \<exists>j<i. dep \<in> set (levels ! j)))"
      using ok True unfolding levelsOK_def by blast
    have "\<And>j. j < i \<Longrightarrow> ?L ! j = levels ! j" using True by (simp add: nth_append)
    then show ?thesis using old unfolding eq by metis
  next
    case False
    then have ieq: "i = length levels" using i by simp
    then have eq: "?L ! i = sort (findLevel nodes processed)" by simp
    have "\<exists>node. map_of nodes n = Some node \<and>
           (\<forall>dep\<in>set (Dependencies node). \<exists>j<i. dep \<in> set (?L ! j))"
      if "n \<in> set (findLevel nodes processed)" for n
    proof -
      from findLevel_node[OF that] obtain node where
        nd: "map_of nodes n = Some node" and sub: "set (Dependencies node) \<subseteq> set processed"
        by blast
      have "\<exists>j<i. dep \<in> set (?L ! j)" if "dep \<in> set (Dependencies node)" for dep
      proof -
        have "dep \<in> \<Union> (set ` set levels)" using that sub pr by auto
        then obtain l where "l \<in> set levels" "dep \<in> set l" by auto
        then obtain j where "j < length levels" "levels ! j = l" by (auto simp: in_set_conv_nth)
        then show ?thesis using \<open>dep \<in> set l\<close> ieq by (auto simp: nth_append)
      qed
      then show ?thesis using nd by blast
    qed
    then show ?thesis unfolding eq by simp
  qed
qed

lemma executionLevels_ok:
  "levelsOK nodes levels \<Longrightarrow> set processed = \<Union> (set ` set levels) \<Longrightarrow>
   levelsOK nodes (executionLevels nodes levels processed)"
proof (induction nodes levels processed rule: executionLevels.induct)
  case (1 nodes levels processed)
  show ?case
  proof (cases "length processed < length (AList.clearjunk nodes) \<and> length (findLevel nodes processed) \<noteq> 0")
    case True
    let ?cl = "findLevel nodes processed"
    have a: "levelsOK nodes (levels @ [sort ?cl])" using "1.prems" by (rule levelsOK_step)
    have b: "set (markProcessed (sort ?cl) processed) = \<Union> (set ` set (levels @ [sort ?cl]))"
      using "1.prems"(2) by (auto simp: set_markProcessed)
    have "levelsOK nodes (executionLevels nodes (levels @ [sort ?cl]) (markProcessed (sort ?cl) processed))"
      using "1.IH"[OF _ refl _ a b] True by simp
    then show ?thesis using True by (subst executionLevels.simps) (simp add: Let_def)
  next
    case False
    then show ?thesis using "1.prems"(1) by (subst executionLevels.simps) (auto simp: Let_def)
  qed
qed

text \<open>
  Claim C3. In the level grouping returned by \<open>GetExecutionOrder\<close>, every level is in
  sorted (lexicographic) order of node IDs, and every node placed in a level is a node of
  the graph all of whose dependencies are placed in strictly earlier levels. This holds
  for every node table, acyclic or not.
\<close>

theorem GetExecutionOrder_levels:
  assumes "i < length (GetExecutionOrder nodes)" and "n \<in> set (GetExecutionOrder nodes ! i)"
  shows "sorted (GetExecutionOrder nodes ! i) \<and>
         (\<exists>node. GetNode nodes n = Some node \<and>
            (\<forall>dep\<in>set (Dependencies node). \<exists>j<i. dep \<in> set (GetExecutionOrder nodes ! j)))"
proof -
  have "levelsOK nodes []" by (simp add: levelsOK_def)
  then have "levelsOK nodes (GetExecutionOrder nodes)"
    unfolding GetExecutionOrder_def by (rule executionLevels_ok) simp
  then show ?thesis using assms unfolding levelsOK_def GetNode_def by blast
qed


theorem GetExecutionOrder_levels_witness:
  "GetExecutionOrder diamond =
     [[''aws:s3:bucket.a''], [''aws:s3:bucket.b1'', ''aws:s3:bucket.b2''], [''aws:s3:bucket.c'']] \<and>
   sorted (GetExecutionOrder diamond ! 1) \<and>
   (\<exists>node. GetNode diamond ''aws:s3:bucket.b1'' = Some node \<and>
      (\<forall>dep. dep \<in> set (Dependencies node) = (\<exists>j<1. dep \<in> set (GetExecutionOrder diamond ! j))))"
proof -
  have e: "GetExecutionOrder diamond =
     [[''aws:s3:bucket.a''], [''aws:s3:bucket.b1'', ''aws:s3:bucket.b2''], [''aws:s3:bucket.c'']]"
    by code_simp
  have h1: "1 < length (GetExecutionOrder diamond)" by (simp add: e)
  have h2: "''aws:s3:bucket.b1'' \<in> set (GetExecutionOrder diamond ! 1)" by (simp add: e)
  have n: "GetNode diamond ''aws:s3:bucket.b1'' =
     Some (mkNode (mkInstance ''aws:s3:bucket'' ''b1'' [''aws:s3:bucket.a'']) [''aws:s3:bucket.c''])"
    by (simp add: GetNode_def diamond_def)
  from GetExecutionOrder_levels[OF h1 h2] have "sorted (GetExecutionOrder diamond ! 1)" by blast
  moreover have "\<forall>dep. dep \<in> set (Dependencies (mkNode (mkInstance ''aws:s3:bucket'' ''b1'' [''aws:s3:bucket.a'']) [''aws:s3:bucket.c''])) = (\<exists>j<1. dep \<in> set (GetExecutionOrder diamond ! j))"
    by (simp add: e mkNode_def mkInstance_def)
  ultimately show ?thesis using e n by simp
qed

subsection \<open>The align tick\<close>

lemma DetectorAutoHeal_calls:
  assumes "c \<in> set (snd (DetectorAutoHeal providers instance driftResult))"
  shows "isCreateOrUpdate c \<and> callInstance c = instance \<and>
         (\<exists>policy. DriftPolicy instance = Some policy \<and> AutoHeal policy)"
  using assms
  by (auto simp: DetectorAutoHeal_def Let_def split: option.splits if_splits)

lemma alignInstance_calls:
  assumes "c \<in> set (calls (alignInstance providers driftResults instance st))"
  shows "c \<in> set (calls st) \<or> healCall driftResults instance c"
proof (cases "map_of driftResults (ID instance)")
  case None
  then show ?thesis using assms by (simp add: alignInstance_def)
next
  case (Some r)
  show ?thesis
  proof (cases "HasDrift r")
    case False
    then show ?thesis using assms Some by (simp add: alignInstance_def)
  next
    case True
    show ?thesis
    proof (cases "DriftPolicy instance")
      case None
      then show ?thesis using assms Some True by (simp add: alignInstance_def Let_def)
    next
      case (Some policy)
      show ?thesis
      proof (cases "NotifyOnly policy \<or> \<not> AutoHeal policy")
        case True
        then show ?thesis using assms \<open>map_of driftResults (ID instance) = Some r\<close> \<open>HasDrift r\<close> Some
          by (auto simp: alignInstance_def Let_def split: if_splits)
      next
        case False
        obtain e cs where ah: "DetectorAutoHeal providers instance r = (e, cs)"
          by (cases "DetectorAutoHeal providers instance r")
        have "calls (alignInstance providers driftResults instance st) = calls st @ cs"
          using \<open>map_of driftResults (ID instance) = Some r\<close> \<open>HasDrift r\<close> Some False ah
          by (cases e) (simp_all add: alignInstance_def Let_def)
        then have "c \<in> set (calls st) \<or> c \<in> set cs" using assms by auto
        moreover have "healCall driftResults instance c" if "c \<in> set cs"
          using DetectorAutoHeal_calls[of c providers "instance" r] that ah Some False
            \<open>map_of driftResults (ID instance) = Some r\<close> \<open>HasDrift r\<close>
          by (auto simp: healCall_def)
        ultimately show ?thesis by blast
      qed
    qed
  qed
qed

lemma alignInstances_calls:
  assumes "c \<in> set (calls (alignInstances providers driftResults instances st))"
  shows "c \<in> set (calls st) \<or> (\<exists>instance\<in>set instances. healCall driftResults instance c)"
  using assms
proof (induction instances arbitrary: st)
  case Nil
  then show ?case by simp
next
  case (Cons i rest)
  from Cons.IH[of "alignInstance providers driftResults i st"] Cons.prems
  have "c \<in> set (calls (alignInstance providers driftResults i st)) \<or>
        (\<exists>instance\<in>set rest. healCall driftResults instance c)" by simp
  then show ?case using alignInstance_calls[of c providers driftResults i st] by auto
qed

lemma notifyOnly_tick: "(case runAlignmentOnce s6Environment (Inr (s6Config [driftedBucket \<lparr>AutoHeal = True, NotifyOnly = True\<rparr>])) of
    Some (Inr st) \<Rightarrow> calls st = [] \<and> driftCount st = 1 \<and> healedCount st = 0 \<and> length (reports st) = 1
  | _ \<Rightarrow> False)"
  by code_simp

lemma autoHeal_tick: "(case runAlignmentOnce s6Environment (Inr (s6Config [driftedBucket \<lparr>AutoHeal = True, NotifyOnly = False\<rparr>])) of
    Some (Inr st) \<Rightarrow> calls st = [CallUpdate healPolicy s5Current] \<and> driftCount st = 1 \<and> healedCount st = 1
  | _ \<Rightarrow> False)"
  by code_simp

lemma runAlignmentOnce_calls:
  assumes "runAlignmentOnce env decoded = Some (Inr st)" and "c \<in> set (calls st)"
  shows "isCreateOrUpdate c \<and>
         (\<exists>policy. DriftPolicy (callInstance c) = Some policy \<and> AutoHeal policy \<and> \<not> NotifyOnly policy)"
proof -
  from assms(1) obtain registry driftResults instances where
    "st = alignInstances (map_of registry) driftResults instances alignStart"
    by (auto simp: runAlignmentOnce_def split: option.splits sum.splits prod.splits)
  with assms(2) alignInstances_calls[of c "map_of registry" driftResults instances alignStart]
  have "\<exists>instance\<in>set instances. healCall driftResults instance c" by (simp add: alignStart_def)
  then show ?thesis by (auto simp: healCall_def)
qed

text \<open>
  Claim C10. In the loop of an align tick, an instance with drift whose policy has
  \<open>notifyOnly\<close> set is only counted and reported, whatever \<open>autoHeal\<close> says: the
  state of the loop changes in its drift counter and its reports and in nothing else, so
  no provider call is issued. Every provider call of the loop is a create or an update on
  an instance of the list that has drift and whose policy has \<open>autoHeal\<close> set and
  \<open>notifyOnly\<close> not set; and so is every provider call of a whole tick that returns.
\<close>

theorem align_notifyOnly_precedence:
  "(DriftPolicy instance = Some policy \<and> NotifyOnly policy \<and>
      map_of driftResults (ID instance) = Some r \<and> HasDrift r \<longrightarrow>
      alignInstance providers driftResults instance st =
        st\<lparr>driftCount := driftCount st + 1,
           reports := reports st @ [ReportNotifyOnly (ID instance) r]\<rparr>) \<and>
   (\<forall>c\<in>set (calls (alignInstances providers driftResults instances alignStart)).
      \<exists>i\<in>set instances. healCall driftResults i c) \<and>
   (\<forall>tick. runAlignmentOnce env decoded = Some (Inr tick) \<longrightarrow>
      (\<forall>c\<in>set (calls tick). isCreateOrUpdate c \<and>
         (\<exists>p. DriftPolicy (callInstance c) = Some p \<and> AutoHeal p \<and> \<not> NotifyOnly p)))"
proof (intro conjI impI ballI allI)
  assume "DriftPolicy instance = Some policy \<and> NotifyOnly policy \<and>
      map_of driftResults (ID instance) = Some r \<and> HasDrift r"
  then show "alignInstance providers driftResults instance st =
        st\<lparr>driftCount := driftCount st + 1,
           reports := reports st @ [ReportNotifyOnly (ID instance) r]\<rparr>"
    by (simp add: alignInstance_def Let_def)
next
  fix c assume "c \<in> set (calls (alignInstances providers driftResults instances alignStart))"
  from alignInstances_calls[OF this] show "\<exists>i\<in>set instances. healCall driftResults i c"
    by (simp add: alignStart_def)
next
  fix tick c assume "runAlignmentOnce env decoded = Some (Inr tick)" "c \<in> set (calls tick)"
  from runAlignmentOnce_calls[OF this]
  show "isCreateOrUpdate c"
    "\<exists>p. DriftPolicy (callInstance c) = Some p \<and> AutoHeal p \<and> \<not> NotifyOnly p"
    by blast+
qed

theorem align_notifyOnly_precedence_witness:
  "calls (alignInstances [''aws'' \<mapsto> s5Provider] [(''aws:s3:bucket.b'', s5Drift)] [bothPolicy] alignStart) = [] \<and>
   reports (alignInstances [''aws'' \<mapsto> s5Provider] [(''aws:s3:bucket.b'', s5Drift)] [bothPolicy] alignStart)
     = [ReportNotifyOnly ''aws:s3:bucket.b'' s5Drift] \<and>
   calls (alignInstances [''aws'' \<mapsto> s5Provider] [(''aws:s3:bucket.b'', s5Drift)] [healPolicy] alignStart)
     = [CallUpdate healPolicy s5Current] \<and>
   healCall [(''aws:s3:bucket.b'', s5Drift)] healPolicy (CallUpdate healPolicy s5Current) \<and>
   (\<exists>tick. runAlignmentOnce s6Environment
              (Inr (s6Config [driftedBucket \<lparr>AutoHeal = True, NotifyOnly = True\<rparr>])) = Some (Inr tick) \<and>
      calls tick = [] \<and> driftCount tick = 1) \<and>
   (\<exists>tick. runAlignmentOnce s6Environment
              (Inr (s6Config [driftedBucket \<lparr>AutoHeal = True, NotifyOnly = False\<rparr>])) = Some (Inr tick) \<and>
      calls tick = [CallUpdate healPolicy s5Current] \<and>
      DriftPolicy (callInstance (CallUpdate healPolicy s5Current)) = Some \<lparr>AutoHeal = True, NotifyOnly = False\<rparr>)"
proof -
  let ?P = "[''aws'' \<mapsto> s5Provider]" and ?D = "[(''aws:s3:bucket.b'', s5Drift)]"
  note t = align_notifyOnly_precedence[of bothPolicy "\<lparr>AutoHeal = True, NotifyOnly = True\<rparr>"
      ?D s5Drift ?P alignStart "[healPolicy]" s6Environment
      "Inr (s6Config [driftedBucket \<lparr>AutoHeal = True, NotifyOnly = False\<rparr>])"]
  have h: "DriftPolicy bothPolicy = Some \<lparr>AutoHeal = True, NotifyOnly = True\<rparr> \<and>
           NotifyOnly \<lparr>AutoHeal = True, NotifyOnly = True\<rparr> \<and>
           map_of ?D (ID bothPolicy) = Some s5Drift \<and> HasDrift s5Drift"
    by (simp add: bothPolicy_def s5Drift_def)
  from t h have a: "alignInstance ?P ?D bothPolicy alignStart =
      alignStart\<lparr>driftCount := driftCount alignStart + 1,
        reports := reports alignStart @ [ReportNotifyOnly (ID bothPolicy) s5Drift]\<rparr>"
    by blast
  have c: "calls (alignInstances ?P ?D [healPolicy] alignStart) = [CallUpdate healPolicy s5Current]"
    by (simp add: alignInstance_def bothPolicy_def healPolicy_def s5Drift_def alignStart_def
        DetectorAutoHeal_def extractProviderName_def s5Provider_def Let_def)
  from t have "\<forall>c\<in>set (calls (alignInstances ?P ?D [healPolicy] alignStart)).
      \<exists>i\<in>set [healPolicy]. healCall ?D i c" by blast
  then have g: "healCall ?D healPolicy (CallUpdate healPolicy s5Current)" unfolding c by simp
  have n: "\<exists>tick. runAlignmentOnce s6Environment
              (Inr (s6Config [driftedBucket \<lparr>AutoHeal = True, NotifyOnly = True\<rparr>])) = Some (Inr tick) \<and>
      calls tick = [] \<and> driftCount tick = 1"
    using notifyOnly_tick by (auto split: option.splits sum.splits)
  obtain tick where k: "runAlignmentOnce s6Environment
              (Inr (s6Config [driftedBucket \<lparr>AutoHeal = True, NotifyOnly = False\<rparr>])) = Some (Inr tick)"
      "calls tick = [CallUpdate healPolicy s5Current]"
    using autoHeal_tick by (auto split: option.splits sum.splits)
  have "DriftPolicy (callInstance (CallUpdate healPolicy s5Current)) = Some \<lparr>AutoHeal = True, NotifyOnly = False\<rparr>"
    by (simp add: healPolicy_def)
  with k have m: "\<exists>tick. runAlignmentOnce s6Environment
              (Inr (s6Config [driftedBucket \<lparr>AutoHeal = True, NotifyOnly = False\<rparr>])) = Some (Inr tick) \<and>
      calls tick = [CallUpdate healPolicy s5Current] \<and>
      DriftPolicy (callInstance (CallUpdate healPolicy s5Current)) = Some \<lparr>AutoHeal = True, NotifyOnly = False\<rparr>"
    by blast
  have "calls (alignInstances ?P ?D [bothPolicy] alignStart) = [] \<and>
        reports (alignInstances ?P ?D [bothPolicy] alignStart) = [ReportNotifyOnly ''aws:s3:bucket.b'' s5Drift]"
    using a by (simp add: alignStart_def bothPolicy_def)
  with c g n m show ?thesis by blast
qed

subsection \<open>Resource expansion\<close>

lemma processValue_noop: "processValue fieldWalk a x = Some (Inr x)"
  by (simp add: processValue_def valueOfAddress_def)

lemma createInstance_id:
  assumes "createInstance rt p resource vars = Some (Inr inst)"
  shows "ID inst = Kind inst @ ''.'' @ Name inst \<and> Kind inst = rKind resource \<and>
         Properties inst = rProperties resource"
  using assms
  by (auto simp: createInstance_def Let_def processValue_noop
      split: if_splits option.splits sum.splits val.splits)

lemma createInstances_append:
  "createInstances rt p resource varsL acc = Some (Inr out) \<Longrightarrow>
   \<exists>new. out = acc @ new \<and>
     list_all2 (\<lambda>vars inst. createInstance rt p resource vars = Some (Inr inst)) varsL new"
proof (induction varsL arbitrary: acc)
  case Nil
  then show ?case by simp
next
  case (Cons vars rest)
  from Cons.prems obtain inst where
    ci: "createInstance rt p resource vars = Some (Inr inst)"
    and r: "createInstances rt p resource rest (acc @ [inst]) = Some (Inr out)"
    by (auto split: option.splits sum.splits)
  from Cons.IH[OF r] obtain new where
    "out = (acc @ [inst]) @ new"
    "list_all2 (\<lambda>vars inst. createInstance rt p resource vars = Some (Inr inst)) rest new"
    by blast
  then have "out = acc @ (inst # new) \<and>
     list_all2 (\<lambda>vars inst. createInstance rt p resource vars = Some (Inr inst)) (vars # rest) (inst # new)"
    using ci by simp
  then show ?case by blast
qed

lemma expandResource_id:
  assumes "expandResource rt p resource = Some (Inr insts)" and "inst \<in> set insts"
  shows "ID inst = Kind inst @ ''.'' @ Name inst \<and> Kind inst = rKind resource"
proof -
  have k: "ID i = Kind i @ ''.'' @ Name i \<and> Kind i = rKind resource"
    if "list_all2 (\<lambda>vars inst. createInstance rt p resource vars = Some (Inr inst)) varsL new"
      "i \<in> set new" for varsL new i
  proof -
    from that obtain vars where "createInstance rt p resource vars = Some (Inr i)"
      by (auto simp: list_all2_conv_all_nth in_set_conv_nth)
    then show ?thesis using createInstance_id by blast
  qed
  show ?thesis
  proof (cases "Count resource \<noteq> VNil")
    case True
    then obtain count where
      "createInstances rt p resource (map countVars [0..<nat count]) [] = Some (Inr insts)"
      using assms(1) by (auto simp: expandResource_def split: sum.splits)
    from createInstances_append[OF this] show ?thesis using k assms(2) by auto
  next
    case False
    show ?thesis
    proof (cases "ForEach resource \<noteq> VNil")
      case True
      then obtain items where
        "createInstances rt p resource (map forEachVars items) [] = Some (Inr insts)"
        using assms(1) False by (auto simp: expandResource_def split: sum.splits)
      from createInstances_append[OF this] show ?thesis using k assms(2) by auto
    next
      case f: False
      then have "createInstance rt p resource [] = Some (Inr inst)"
        using assms False by (auto simp: expandResource_def split: option.splits sum.splits)
      then show ?thesis using createInstance_id by blast
    qed
  qed
qed

lemma expandFrom_acc:
  "expandFrom rt p resources acc = Some (Inr out) \<Longrightarrow>
   \<exists>new. out = acc @ new \<and> expandFrom rt p resources [] = Some (Inr new) \<and>
     (\<forall>inst\<in>set new. \<exists>resource\<in>set resources. \<exists>insts.
         expandResource rt p resource = Some (Inr insts) \<and> inst \<in> set insts)"
proof (induction resources arbitrary: acc out)
  case Nil
  then show ?case by simp
next
  case (Cons r rest)
  from Cons.prems obtain ex where
    e: "expandResource rt p r = Some (Inr ex)"
    and rr: "expandFrom rt p rest (acc @ ex) = Some (Inr out)"
    by (auto split: option.splits sum.splits)
  from Cons.IH[OF rr] obtain new where
    n: "out = (acc @ ex) @ new" "expandFrom rt p rest [] = Some (Inr new)"
    "\<forall>inst\<in>set new. \<exists>resource\<in>set rest. \<exists>insts.
         expandResource rt p resource = Some (Inr insts) \<and> inst \<in> set insts"
    by blast
  have "expandFrom rt p rest ([] @ ex) = Some (Inr (ex @ new))"
  proof -
    have "\<And>a o'. expandFrom rt p rest a = Some (Inr o') \<Longrightarrow> expandFrom rt p rest (b @ a) = Some (Inr (b @ o'))" for b
    proof (induction rest)
      case Nil
      then show ?case by simp
    next
      case (Cons r' rest')
      then show ?case by (auto split: option.splits sum.splits)
    qed
    from this[OF n(2), of ex] show ?thesis by simp
  qed
  then have "expandFrom rt p (r # rest) [] = Some (Inr (ex @ new))" using e by simp
  moreover have "out = acc @ (ex @ new)" using n(1) by simp
  moreover have "\<forall>inst\<in>set (ex @ new). \<exists>resource\<in>set (r # rest). \<exists>insts.
         expandResource rt p resource = Some (Inr insts) \<and> inst \<in> set insts"
    using e n(3) by auto
  ultimately show ?case by blast
qed








lemma expandFrom_append:
  "expandFrom rt p rs1 acc = Some (Inr mid) \<Longrightarrow> expandFrom rt p rs2 [] = Some (Inr i2) \<Longrightarrow>
   expandFrom rt p (rs1 @ rs2) acc = Some (Inr (mid @ i2))"
proof (induction rs1 arbitrary: acc)
  case Nil
  have "\<And>a o'. expandFrom rt p rs2 a = Some (Inr o') \<Longrightarrow> expandFrom rt p rs2 (b @ a) = Some (Inr (b @ o'))" for b
  proof (induction rs2)
    case Nil
    then show ?case by simp
  next
    case (Cons r' rest')
    then show ?case by (auto split: option.splits sum.splits)
  qed
  from this[OF Nil(2), of mid] Nil(1) show ?case by simp
next
  case (Cons r rest)
  then show ?case by (auto split: option.splits sum.splits)
qed

text \<open>
  Claim C7, as stated, fails: two declarations of the same kind and name expand, with no
  error, to two instances of the same ID.
\<close>

theorem ExpandResources_duplicate_ids:
  "ExpandResources bareRuntime \<lparr>variables = []\<rparr> [logsBucket, logsBucket] =
     Some (Inr [instanceOf logsBucket ''logs'', instanceOf logsBucket ''logs'']) \<and>
   \<not> distinct (map ID [instanceOf logsBucket ''logs'', instanceOf logsBucket ''logs''])"
  by code_simp

text \<open>
  Claim C7, amended. Every instance of a successful expansion has the ID
  kind, dot, name, with the kind of one of the declarations; and the expansion compares no
  instance with another: when two lists of declarations expand, so does their
  concatenation, to the concatenation of the two results. So the IDs of an expansion are
  pairwise distinct only if the declarations give distinct kind and name pairs.
\<close>

theorem ExpandResources_ids:
  assumes "ExpandResources rt p resources = Some (Inr instances)"
  shows "(\<forall>inst\<in>set instances. ID inst = Kind inst @ ''.'' @ Name inst \<and>
            Kind inst \<in> rKind ` set resources) \<and>
         (\<forall>more extra. ExpandResources rt p more = Some (Inr extra) \<longrightarrow>
            ExpandResources rt p (resources @ more) = Some (Inr (instances @ extra)))"
proof (intro conjI ballI allI impI)
  fix inst assume i: "inst \<in> set instances"
  from expandFrom_acc[OF assms[unfolded ExpandResources_def]] i
  obtain resource insts where r: "resource \<in> set resources"
    "expandResource rt p resource = Some (Inr insts)" "inst \<in> set insts"
    by auto
  from expandResource_id[OF r(2) r(3)] r(1)
  show "ID inst = Kind inst @ ''.'' @ Name inst" "Kind inst \<in> rKind ` set resources" by auto
next
  fix more extra assume "ExpandResources rt p more = Some (Inr extra)"
  then show "ExpandResources rt p (resources @ more) = Some (Inr (instances @ extra))"
    using assms expandFrom_append unfolding ExpandResources_def by blast
qed

theorem ExpandResources_ids_witness:
  "ExpandResources bareRuntime \<lparr>variables = []\<rparr> [logsBucket] =
     Some (Inr [instanceOf logsBucket ''logs'']) \<and>
   ID (instanceOf logsBucket ''logs'') = ''aws:s3:bucket.logs'' \<and>
   ExpandResources bareRuntime \<lparr>variables = []\<rparr> ([logsBucket] @ [logsBucket]) =
     Some (Inr ([instanceOf logsBucket ''logs''] @ [instanceOf logsBucket ''logs'']))"
proof -
  have h: "ExpandResources bareRuntime \<lparr>variables = []\<rparr> [logsBucket] =
     Some (Inr [instanceOf logsBucket ''logs''])" by code_simp
  from ExpandResources_ids[OF h] h
  have "ExpandResources bareRuntime \<lparr>variables = []\<rparr> ([logsBucket] @ [logsBucket]) =
     Some (Inr ([instanceOf logsBucket ''logs''] @ [instanceOf logsBucket ''logs'']))"
    by blast
  moreover have "ID (instanceOf logsBucket ''logs'') = ''aws:s3:bucket.logs''"
    by (simp add: instanceOf_def logsBucket_def mkResource_def)
  ultimately show ?thesis using h by simp
qed

text \<open>
  Claim C6, as stated, fails: for a string element the scope of the instance has no
  binding of \<open>item\<close>, and a name that refers to \<open>item\<close> is left as it is.
\<close>

theorem expandResource_item_unbound:
  "map_of (AList.merge (variables \<lparr>variables = []\<rparr>) (forEachVars (VStr ''us-east-1''))) ''item'' = None \<and>
   expandResource bareRuntime \<lparr>variables = []\<rparr> itemBucket =
     Some (Inr [instanceOf itemBucket ''${item}''])"
  by code_simp

text \<open>
  Claim C6, amended. For a declaration without \<open>count\<close> whose \<open>for_each\<close> resolves to a
  sequence, a successful expansion has one instance per element, in order, each the
  instance created in the scope of the parser's variables extended with one binding:
  \<open>region\<close> bound to the element when it is a string, \<open>item\<close> bound to it otherwise.
\<close>

theorem expandResource_forEach_scope:
  assumes "Count resource = VNil" and "ForEach resource \<noteq> VNil"
    and "resolveForEach rt p (ForEach resource) = Inr items"
    and "expandResource rt p resource = Some (Inr instances)"
  shows "list_all2 (\<lambda>s inst. createInstance rt p resource (forEachVars s) = Some (Inr inst))
           items instances \<and>
         (\<forall>s\<in>set items. map_of (AList.merge (variables p) (forEachVars s)) =
            map_of (variables p) ++ (case s of VStr v \<Rightarrow> [''region'' \<mapsto> s] | _ \<Rightarrow> [''item'' \<mapsto> s]))"
proof
  have "createInstances rt p resource (map forEachVars items) [] = Some (Inr instances)"
    using assms by (simp add: expandResource_def)
  from createInstances_append[OF this]
  show "list_all2 (\<lambda>s inst. createInstance rt p resource (forEachVars s) = Some (Inr inst))
           items instances"
    by (simp add: list_all2_map1)
next
  show "\<forall>s\<in>set items. map_of (AList.merge (variables p) (forEachVars s)) =
            map_of (variables p) ++ (case s of VStr v \<Rightarrow> [''region'' \<mapsto> s] | _ \<Rightarrow> [''item'' \<mapsto> s])"
    by (auto simp: merge_conv' forEachVars_def split: val.splits)
qed

theorem expandResource_forEach_scope_witness:
  "expandResource bareRuntime \<lparr>variables = []\<rparr> regionBuckets =
     Some (Inr [instanceOf regionBuckets ''logs-us-east-1'', instanceOf regionBuckets ''logs-us-west-2'']) \<and>
   createInstance bareRuntime \<lparr>variables = []\<rparr> regionBuckets (forEachVars (VStr ''us-west-2'')) =
     Some (Inr (instanceOf regionBuckets ''logs-us-west-2'')) \<and>
   map_of (AList.merge (variables \<lparr>variables = []\<rparr>) (forEachVars (VStr ''us-west-2''))) =
     map_of (variables \<lparr>variables = []\<rparr>) ++ [''region'' \<mapsto> VStr ''us-west-2'']"
proof -
  let ?p = "\<lparr>variables = []\<rparr>"
  have h1: "Count regionBuckets = VNil" by (simp add: regionBuckets_def mkResource_def)
  have h2: "ForEach regionBuckets \<noteq> VNil" by (simp add: regionBuckets_def mkResource_def)
  have h3: "resolveForEach bareRuntime ?p (ForEach regionBuckets) = Inr [VStr ''us-east-1'', VStr ''us-west-2'']"
    by (simp add: regionBuckets_def mkResource_def resolveForEach_def)
  have h4: "expandResource bareRuntime ?p regionBuckets =
     Some (Inr [instanceOf regionBuckets ''logs-us-east-1'', instanceOf regionBuckets ''logs-us-west-2''])"
    by code_simp
  from expandResource_forEach_scope[OF h1 h2 h3 h4] h4 show ?thesis by simp
qed




text \<open>
  Claim C9, as stated, fails in its second half: a declaration whose count is \<open>-1\<close> is
  not rejected; it expands to no instance.
\<close>

theorem expandResource_negative_count:
  "resolveCount bareRuntime \<lparr>variables = []\<rparr> (Count negativeWeb) = Inr (- 1) \<and>
   expandResource bareRuntime \<lparr>variables = []\<rparr> negativeWeb = Some (Inr [])"
  by code_simp

text \<open>
  Claim C9, amended. A declaration whose count resolves to zero or to a negative integer
  expands to no instance, with no error.
\<close>

theorem expandResource_count_nonpositive:
  assumes "Count resource \<noteq> VNil" and "resolveCount rt p (Count resource) = Inr n" and "n \<le> 0"
  shows "expandResource rt p resource = Some (Inr [])"
  using assms by (simp add: expandResource_def)

theorem expandResource_count_nonpositive_witness:
  "Count replicasWeb \<noteq> VNil \<and>
   resolveCount bareRuntime \<lparr>variables = [(''replicas'', VInt (- 2))]\<rparr> (Count replicasWeb) = Inr (- 2) \<and>
   expandResource bareRuntime \<lparr>variables = [(''replicas'', VInt (- 2))]\<rparr> replicasWeb = Some (Inr []) \<and>
   expandResource bareRuntime \<lparr>variables = [(''replicas'', VInt 0)]\<rparr> replicasWeb = Some (Inr [])"
proof -
  have h1: "Count replicasWeb \<noteq> VNil" by (simp add: replicasWeb_def mkResource_def)
  have h2: "resolveCount bareRuntime \<lparr>variables = [(''replicas'', VInt (- 2))]\<rparr> (Count replicasWeb) = Inr (- 2)"
    by (simp add: replicasWeb_def mkResource_def resolveCount_def evaluateExpr_def)
  have h3: "resolveCount bareRuntime \<lparr>variables = [(''replicas'', VInt 0)]\<rparr> (Count replicasWeb) = Inr 0"
    by (simp add: replicasWeb_def mkResource_def resolveCount_def evaluateExpr_def)
  show ?thesis
    using expandResource_count_nonpositive[OF h1 h2] expandResource_count_nonpositive[OF h1 h3] h1 h2
    by simp
qed

subsection \<open>The policy gate of bootstrap\<close>














subsection \<open>Commit execution\<close>

lemma sameInstances_refl: "sameInstances d d"
  by (simp add: sameInstances_def)

lemma sameInstances_trans: "sameInstances a b \<Longrightarrow> sameInstances b c \<Longrightarrow> sameInstances a c"
  by (simp add: sameInstances_def)

lemma SetNodeStatus_same: "sameInstances d (SetNodeStatus d n status e)"
  by (auto simp: sameInstances_def SetNodeStatus_def update_conv' split: option.splits)

lemma executeNode_same:
  assumes "executeNode registry driftResults d n = (res, d', cs)"
  shows "sameInstances d d'"
proof (cases "GetNode d n")
  case None
  then show ?thesis using assms by (auto simp: executeNode_def sameInstances_refl)
next
  case (Some node)
  show ?thesis
  proof (cases "map_of driftResults n")
    case None
    then show ?thesis using assms Some by (auto simp: executeNode_def sameInstances_refl)
  next
    case dr: (Some driftResult)
    let ?d1 = "SetNodeStatus d n StatusRunning None"
    have s1: "sameInstances d ?d1" by (rule SetNodeStatus_same)
    have "\<exists>status e. d' = SetNodeStatus ?d1 n status e"
      using assms Some dr
      by (auto simp: executeNode_def Let_def split: option.splits if_splits prod.splits)
    then obtain status e where "d' = SetNodeStatus ?d1 n status e" by blast
    then have "sameInstances ?d1 d'" using SetNodeStatus_same by simp
    with s1 show ?thesis by (rule sameInstances_trans)
  qed
qed

lemma executeNode_runs:
  assumes "GetNode d n = Some node" and "map_of driftResults n = Some driftResult"
    and "map_of registry (extractProviderName (Kind (Instance node))) = Some provider"
    and "executeNode registry driftResults d n = (res, d', cs)"
  shows "cs = callsFor (Instance node) driftResult \<and>
         resErr res = callError provider (Instance node) driftResult"
  using assms
  by (auto simp: executeNode_def Let_def callsFor_def callError_def split: option.splits if_splits)

lemma collect_errors:
  "set (ExecErrors (collect res result)) = set (ExecErrors result) \<union> set_option (resErr res)"
  by (auto simp: collect_def Let_def split: option.splits)

lemma collect_success:
  "(ExecSuccess result \<longleftrightarrow> ExecErrors result = []) \<Longrightarrow>
   (ExecSuccess (collect res result) \<longleftrightarrow> ExecErrors (collect res result) = [])"
  by (auto simp: collect_def Let_def split: option.splits)

lemma stepOK_refl: "stepOK st st"
  by (simp add: stepOK_def sameInstances_refl)

lemma stepOK_trans: "stepOK a b \<Longrightarrow> stepOK b c \<Longrightarrow> stepOK a c"
  unfolding stepOK_def using sameInstances_trans by blast

lemma executeNode_step:
  assumes "executeNode registry driftResults (nodeTable st) n = (res, d', cs)"
  shows "stepOK st \<lparr>nodeTable = d', execResult = collect res (execResult st), issued = issued st @ cs\<rparr>"
  using executeNode_same[OF assms] collect_success[of "execResult st" res]
  by (auto simp: stepOK_def collect_errors)

lemma executeLevel_step: "stepOK st (executeLevel registry driftResults level st)"
proof (induction level arbitrary: st)
  case Nil
  then show ?case by (simp add: stepOK_refl)
next
  case (Cons n rest)
  obtain res d' cs where e: "executeNode registry driftResults (nodeTable st) n = (res, d', cs)"
    by (cases "executeNode registry driftResults (nodeTable st) n") auto
  let ?st1 = "\<lparr>nodeTable = d', execResult = collect res (execResult st), issued = issued st @ cs\<rparr>"
  have "stepOK st ?st1" using e by (rule executeNode_step)
  moreover have "stepOK ?st1 (executeLevel registry driftResults rest ?st1)" by (rule Cons.IH)
  ultimately show ?case using e by (simp add: stepOK_trans)
qed

lemma executeLevels_step: "stepOK st (executeLevels registry driftResults levels st)"
proof (induction levels arbitrary: st)
  case Nil
  then show ?case by (simp add: stepOK_refl)
next
  case (Cons level rest)
  have "stepOK st (executeLevel registry driftResults level st)" by (rule executeLevel_step)
  moreover have "stepOK (executeLevel registry driftResults level st)
      (executeLevels registry driftResults rest (executeLevel registry driftResults level st))"
    by (rule Cons.IH)
  ultimately show ?case by (simp add: stepOK_trans)
qed

lemma ran_mono: "ran registry driftResults d n st \<Longrightarrow> stepOK st st' \<Longrightarrow> ran registry driftResults d n st'"
  unfolding ran_def stepOK_def by blast

lemma executeLevel_ran:
  assumes "n \<in> set level" and "sameInstances d (nodeTable st)"
  shows "ran registry driftResults d n (executeLevel registry driftResults level st)"
  using assms
proof (induction level arbitrary: st)
  case Nil
  then show ?case by simp
next
  case (Cons m rest)
  obtain res d' cs where e: "executeNode registry driftResults (nodeTable st) m = (res, d', cs)"
    by (cases "executeNode registry driftResults (nodeTable st) m") auto
  let ?st1 = "\<lparr>nodeTable = d', execResult = collect res (execResult st), issued = issued st @ cs\<rparr>"
  have step: "stepOK st ?st1" using e by (rule executeNode_step)
  have same1: "sameInstances d (nodeTable ?st1)"
    using Cons.prems(2) step sameInstances_trans by (auto simp: stepOK_def)
  show ?case
  proof (cases "n = m")
    case True
    have "ran registry driftResults d n ?st1"
      unfolding ran_def
    proof (intro allI impI)
      fix node driftResult provider
      assume a: "GetNode d n = Some node \<and> map_of driftResults n = Some driftResult \<and>
        map_of registry (extractProviderName (Kind (Instance node))) = Some provider"
      from a Cons.prems(2) obtain node' where n': "GetNode (nodeTable st) n = Some node'"
        and i': "Instance node' = Instance node"
        by (auto simp: sameInstances_def GetNode_def dest!: spec[of _ n])
      have "cs = callsFor (Instance node') driftResult \<and>
         resErr res = callError provider (Instance node') driftResult"
        using executeNode_runs[OF n' _ _ e[folded True]] a i' by simp
      then show "set (callsFor (Instance node) driftResult) \<subseteq> set (issued ?st1) \<and>
        set_option (callError provider (Instance node) driftResult) \<subseteq> set (ExecErrors (execResult ?st1))"
        using i' by (auto simp: collect_errors)
    qed
    then have "ran registry driftResults d n (executeLevel registry driftResults rest ?st1)"
      using executeLevel_step by (rule ran_mono)
    then show ?thesis using e by simp
  next
    case False
    then have "n \<in> set rest" using Cons.prems(1) by simp
    from Cons.IH[OF this same1] show ?thesis using e by simp
  qed
qed

lemma executeLevels_ran:
  assumes "level \<in> set levels" and "n \<in> set level" and "sameInstances d (nodeTable st)"
  shows "ran registry driftResults d n (executeLevels registry driftResults levels st)"
  using assms
proof (induction levels arbitrary: st)
  case Nil
  then show ?case by simp
next
  case (Cons l rest)
  let ?st1 = "executeLevel registry driftResults l st"
  have step: "stepOK st ?st1" by (rule executeLevel_step)
  have same1: "sameInstances d (nodeTable ?st1)"
    using Cons.prems(3) step sameInstances_trans by (auto simp: stepOK_def)
  show ?case
  proof (cases "level = l")
    case True
    have "ran registry driftResults d n ?st1"
      using Cons.prems(2) Cons.prems(3) unfolding True by (rule executeLevel_ran)
    then show ?thesis using executeLevels_step ran_mono by fastforce
  next
    case False
    then have "level \<in> set rest" using Cons.prems(1) by simp
    from Cons.IH[OF this Cons.prems(2) same1] show ?thesis by simp
  qed
qed

text \<open>
  Claim C4, as stated, fails: in a chain of two nodes the creation of the first fails, the
  node is marked failed, and the second, which depends on it, is created all the same.
\<close>

theorem executeChanges_runs_dependent_of_failed:
  "GetExecutionOrder chain = [[''aws:s3:bucket.a''], [''aws:s3:bucket.b'']] \<and>
   map_option Dependencies (GetNode chain ''aws:s3:bucket.b'') = Some [''aws:s3:bucket.a''] \<and>
   Create failingFirst chainA = Some ''AccessDenied'' \<and>
   map_option Status (GetNode (nodeTable (executeChanges [(''aws'', failingFirst)] chainDrift chain))
      ''aws:s3:bucket.a'') = Some StatusFailed \<and>
   issued (executeChanges [(''aws'', failingFirst)] chainDrift chain) =
     [CallCreate chainA, CallCreate chainB] \<and>
   map_option Status (GetNode (nodeTable (executeChanges [(''aws'', failingFirst)] chainDrift chain))
      ''aws:s3:bucket.b'') = Some StatusCompleted"
  by code_simp

text \<open>
  Claim C4, amended. During commit execution every node of every level that the graph, the
  drift results and the registry know is run, whatever became of the nodes it depends on
  and of the other nodes of its level: the create (resource absent) or update (resource
  drifted) that its drift result asks for is issued, and the error of that call, if any,
  is recorded in the result. The result reports success exactly when no error was
  recorded.
\<close>

theorem executeChanges_runs_every_node:
  assumes "level \<in> set (GetExecutionOrder d)" and "n \<in> set level"
    and "GetNode d n = Some node" and "map_of driftResults n = Some driftResult"
    and "map_of registry (extractProviderName (Kind (Instance node))) = Some provider"
  shows "set (callsFor (Instance node) driftResult)
           \<subseteq> set (issued (executeChanges registry driftResults d)) \<and>
         set_option (callError provider (Instance node) driftResult)
           \<subseteq> set (ExecErrors (execResult (executeChanges registry driftResults d))) \<and>
         (ExecSuccess (execResult (executeChanges registry driftResults d)) \<longleftrightarrow>
            ExecErrors (execResult (executeChanges registry driftResults d)) = [])"
proof -
  let ?st0 = "\<lparr>nodeTable = d, execResult = \<lparr>ExecSuccess = True, ExecChanges = [], ExecErrors = []\<rparr>,
                issued = []\<rparr>"
  have "ran registry driftResults d n (executeLevels registry driftResults (GetExecutionOrder d) ?st0)"
    using assms(1,2) by (rule executeLevels_ran) (simp add: sameInstances_refl)
  then have a: "set (callsFor (Instance node) driftResult)
           \<subseteq> set (issued (executeChanges registry driftResults d)) \<and>
         set_option (callError provider (Instance node) driftResult)
           \<subseteq> set (ExecErrors (execResult (executeChanges registry driftResults d)))"
    using assms(3,4,5) unfolding ran_def executeChanges_def by blast
  have "stepOK ?st0 (executeLevels registry driftResults (GetExecutionOrder d) ?st0)"
    by (rule executeLevels_step)
  then have "ExecSuccess (execResult (executeChanges registry driftResults d)) \<longleftrightarrow>
            ExecErrors (execResult (executeChanges registry driftResults d)) = []"
    unfolding stepOK_def executeChanges_def by simp
  with a show ?thesis by blast
qed

theorem executeChanges_runs_every_node_witness:
  "CallCreate chainB \<in> set (issued (executeChanges [(''aws'', failingFirst)] chainDrift chain)) \<and>
   CallCreate chainA \<in> set (issued (executeChanges [(''aws'', failingFirst)] chainDrift chain)) \<and>
   ''AccessDenied'' \<in> set (ExecErrors (execResult (executeChanges [(''aws'', failingFirst)] chainDrift chain))) \<and>
   \<not> ExecSuccess (execResult (executeChanges [(''aws'', failingFirst)] chainDrift chain))"
proof -
  let ?R = "[(''aws'', failingFirst)]"
  have lv: "GetExecutionOrder chain = [[''aws:s3:bucket.a''], [''aws:s3:bucket.b'']]" by code_simp
  have la: "[''aws:s3:bucket.a''] \<in> set (GetExecutionOrder chain)" by (simp add: lv)
  have lb: "[''aws:s3:bucket.b''] \<in> set (GetExecutionOrder chain)" by (simp add: lv)
  have na: "GetNode chain ''aws:s3:bucket.a'' = Some (mkNode chainA [''aws:s3:bucket.b''])"
    by (simp add: GetNode_def chain_def)
  have nb: "GetNode chain ''aws:s3:bucket.b'' = Some (mkNode chainB [])"
    by (simp add: GetNode_def chain_def)
  have da: "map_of chainDrift ''aws:s3:bucket.a'' = Some (absent chainA)" by (simp add: chainDrift_def)
  have db: "map_of chainDrift ''aws:s3:bucket.b'' = Some (absent chainB)" by (simp add: chainDrift_def)
  have pa: "map_of ?R (extractProviderName (Kind (Instance (mkNode chainA [''aws:s3:bucket.b''])))) = Some failingFirst"
    by (simp add: mkNode_def chainA_def mkInstance_def extractProviderName_def)
  have pb: "map_of ?R (extractProviderName (Kind (Instance (mkNode chainB [])))) = Some failingFirst"
    by (simp add: mkNode_def chainB_def mkInstance_def extractProviderName_def)
  note ta = executeChanges_runs_every_node[OF la _ na da pa, simplified]
    and tb = executeChanges_runs_every_node[OF lb _ nb db pb, simplified]
  have ca: "callsFor (Instance (mkNode chainA [''aws:s3:bucket.b''])) (absent chainA) = [CallCreate chainA]"
    by (simp add: callsFor_def absent_def mkNode_def)
  have cb: "callsFor (Instance (mkNode chainB [])) (absent chainB) = [CallCreate chainB]"
    by (simp add: callsFor_def absent_def mkNode_def)
  have ea: "callError failingFirst (Instance (mkNode chainA [''aws:s3:bucket.b''])) (absent chainA) = Some ''AccessDenied''"
    by (simp add: callError_def absent_def mkNode_def failingFirst_def chainA_def mkInstance_def)
  from ta ca ea have
    "CallCreate chainA \<in> set (issued (executeChanges ?R chainDrift chain))"
    "''AccessDenied'' \<in> set (ExecErrors (execResult (executeChanges ?R chainDrift chain)))"
    "ExecSuccess (execResult (executeChanges ?R chainDrift chain)) \<longleftrightarrow>
       ExecErrors (execResult (executeChanges ?R chainDrift chain)) = []"
    by auto
  moreover from tb cb have "CallCreate chainB \<in> set (issued (executeChanges ?R chainDrift chain))"
    by auto
  ultimately show ?thesis by auto
qed

subsection \<open>The substitution loop on a fragment that does not evaluate\<close>

text \<open>
  When the first fragment of a mixed string evaluates to a text that puts the string back
  as it was, the loop of \<open>evaluateExpression\<close> meets the same string again and does not
  return. An unbound identifier does this, since \<open>evaluateExpr\<close> gives back its own
  token.
\<close>

lemma substituteLoop_fixed_point:
  assumes s: "indexOf result ''${'' = Some start"
    and e: "indexOf (drop start result) ''}'' = Some e"
    and v: "evaluateExpr engine vars (take (e + start - (start + 2)) (drop (start + 2) result)) = Inr v"
    and same: "take start result @ fmtV v @ drop (e + start + 1) result = result"
  shows "substituteLoop engine vars input result = None"
proof (rule ccontr)
  assume "substituteLoop engine vars input result \<noteq> None"
  then obtain y where y: "substituteLoop engine vars input result = Some y" by auto
  have "\<not> (engine = engine \<and> vars = vars \<and> result = result)"
  proof (rule substituteLoop.raw_induct[where P = "\<lambda>engine' vars' input' result' y.
          \<not> (engine' = engine \<and> vars' = vars \<and> result' = result)", OF _ y])
    fix loop :: "engine \<Rightarrow> props \<Rightarrow> string \<Rightarrow> string \<Rightarrow> (parse_error + val) option"
      and engine' vars' input' result' y'
    assume IH: "\<And>engine' vars' input' result' y'. loop engine' vars' input' result' = Some y' \<Longrightarrow>
              \<not> (engine' = engine \<and> vars' = vars \<and> result' = result)"
      and step: "(case indexOf result' ''${'' of
          None \<Rightarrow> Some (Inr (VStr result'))
        | Some start \<Rightarrow>
            (case indexOf (drop start result') ''}'' of
               None \<Rightarrow> Some (Inl (UnclosedExpression input'))
             | Some e \<Rightarrow>
                 (let end = e + start;
                      exprStr = take (end - (start + 2)) (drop (start + 2) result')
                  in case evaluateExpr engine' vars' exprStr of
                       Inl err \<Rightarrow> Some (Inl (EvaluatingExpression exprStr err))
                     | Inr v \<Rightarrow>
                         loop engine' vars' input'
                           (take start result' @ fmtV v @ drop (end + 1) result')))) = Some y'"
    show "\<not> (engine' = engine \<and> vars' = vars \<and> result' = result)"
    proof
      assume eq: "engine' = engine \<and> vars' = vars \<and> result' = result"
      then have "loop engine vars input' result = Some y'"
        using step s e v same by (simp add: Let_def)
      from IH[OF this] show False by simp
    qed
  qed
  then show False by simp
qed

text \<open>
  So a name that mixes text with a reference to \<open>item\<close>, iterated over strings, has an
  instance creation that does not return.
\<close>

lemma createInstance_mixed_unresolved:
  "createInstance bareRuntime \<lparr>variables = []\<rparr>
     (mkResource ''aws:s3:bucket'' ''logs-${item}'' VNil (VList [VStr ''us-east-1'']))
     (forEachVars (VStr ''us-east-1'')) = None"
proof -
  have i: "indexOf ''logs-${item}'' ''${'' = Some 5" by code_simp
  have e: "indexOf (drop 5 ''logs-${item}'') ''}'' = Some 6" by code_simp
  have v: "evaluateExpr (exprEngine bareRuntime) (AList.merge [] (forEachVars (VStr ''us-east-1'')))
             (take (6 + 5 - (5 + 2)) (drop (5 + 2) ''logs-${item}'')) = Inr (VStr ''${item}'')"
    by code_simp
  have same: "take 5 ''logs-${item}'' @ fmtV (VStr ''${item}'') @ drop (6 + 5 + 1) ''logs-${item}'' = ''logs-${item}''"
    by code_simp
  have "substituteLoop (exprEngine bareRuntime) (AList.merge [] (forEachVars (VStr ''us-east-1'')))
          ''logs-${item}'' ''logs-${item}'' = None"
    using i e v same by (rule substituteLoop_fixed_point)
  moreover have "contains ''logs-${item}'' ''${''" by code_simp
  moreover have "\<not> prefix ''${'' ''logs-${item}''" by simp
  ultimately show ?thesis
    by (simp add: createInstance_def mkResource_def evaluateExpression_def Let_def)
qed

subsection \<open>The repository's parser tests, replayed\<close>

text \<open>
  \<open>TestParser_ExpandResources\<close>: a count of three over \<open>web-${index}\<close>, and a
  \<open>for_each\<close> expression over the variable \<open>regions\<close>.
\<close>

lemma test_expand_count:
  "map_option (map_sum id (map ID))
     (ExpandResources bareRuntime \<lparr>variables = []\<rparr>
        [mkResource ''aws:ec2:instance'' ''web-${index}'' (VInt 3) VNil]) =
   Some (Inr [''aws:ec2:instance.web-0'', ''aws:ec2:instance.web-1'', ''aws:ec2:instance.web-2''])"
  by code_simp

lemma test_expand_for_each_expression:
  "map_option (map_sum id (map ID))
     (ExpandResources bareRuntime
        \<lparr>variables = [(''regions'', VList [VStr ''us-east-1'', VStr ''us-west-2''])]\<rparr>
        [mkResource ''aws:s3:bucket'' ''logs-${region}'' VNil (VStr ''${regions}'')]) =
   Some (Inr [''aws:s3:bucket.logs-us-east-1'', ''aws:s3:bucket.logs-us-west-2''])"
  by code_simp

text \<open>
  \<open>TestParser_Parse\<close>, configuration with variables and expressions: the region of the
  provider is resolved, and the property \<open>tags\<close> of the resource stays the text
  \<open>${tags}\<close> although \<open>tags\<close> is a variable of the document, as the test expects.
\<close>

lemma test_parse_defers_resources:
  "map_option (map_sum id (\<lambda>pc. (Providers (snd pc), map rProperties (Resources (snd pc)))))
     (Parse bareRuntime \<lparr>Project = ''test-project'', Environment = ''prod'',
        Variables = Some [(''region'', VStr ''us-west-2''),
                          (''tags'', VMap [(''owner'', VStr ''platform-team'')])],
        Providers = [(''aws'', \<lparr>Region = ''${region}'', Profile = ''''\<rparr>)], Modules = [],
        Resources = [\<lparr>rKind = ''aws:s3:bucket'', rName = ''test-bucket'', Count = VNil,
           ForEach = VNil,
           rProperties = [(''versioning'', VBool True), (''tags'', VStr ''${tags}'')],
           rDriftPolicy = None, rDependsOn = []\<rparr>]\<rparr>) =
   Some (Inr ([(''aws'', \<lparr>Region = ''us-west-2'', Profile = ''''\<rparr>)],
              [[(''versioning'', VBool True), (''tags'', VStr ''${tags}'')]]))"
  by code_simp

end
